theory Spec2Isabelle
  imports Complex_Main "HOL-Library.Sublist"
begin

section \<open>JavaScript strings\<close>

text \<open>
  Strings are lists of code units; the model covers the code units below 256.
  \<open>ord\<close> reads a code unit as a number.
\<close>

definition ord :: "char \<Rightarrow> nat" where
  "ord c = of_char c"

definition is_digit :: "char \<Rightarrow> bool" where
  \<comment> \<open>the class \<open>[0-9]\<close>\<close>
  "is_digit c = (48 \<le> ord c \<and> ord c \<le> 57)"

definition in_range :: "char \<Rightarrow> char \<Rightarrow> char \<Rightarrow> bool" where
  \<comment> \<open>the class \<open>[a-b]\<close>\<close>
  "in_range a b c = (ord a \<le> ord c \<and> ord c \<le> ord b)"

definition is_space :: "char \<Rightarrow> bool" where
  \<comment> \<open>\<open>\s\<close> and the characters \<open>trim()\<close> strips: TAB, LF, VT, FF, CR, SP, NBSP\<close>
  "is_space c = (ord c \<in> {9, 10, 11, 12, 13, 32, 160})"

definition trim :: "string \<Rightarrow> string" where
  "trim s = rev (dropWhile is_space (rev (dropWhile is_space s)))"

definition lower_char :: "char \<Rightarrow> char" where
  \<comment> \<open>\<open>toLowerCase\<close> on one code unit: A-Z, and the Latin-1 capitals except the multiplication sign\<close>
  "lower_char c =
     (let n = ord c in
      if (65 \<le> n \<and> n \<le> 90) \<or> (192 \<le> n \<and> n \<le> 222 \<and> n \<noteq> 215) then char_of (n + 32) else c)"

definition toLowerCase :: "string \<Rightarrow> string" where
  "toLowerCase s = map lower_char s"

definition startsWith :: "string \<Rightarrow> string \<Rightarrow> bool" where
  "startsWith s p = (take (length p) s = p)"

fun split_ws :: "string \<Rightarrow> string list" where
  \<comment> \<open>\<open>s.split(/\s+/)\<close>: the pieces between maximal runs of white space\<close>
  "split_ws [] = ['''']"
| "split_ws (c # cs) =
     (if is_space c then
        (case cs of
           [] \<Rightarrow> ['''', '''']
         | d # ds \<Rightarrow> if is_space d then split_ws cs else [] # split_ws cs)
      else (case split_ws cs of [] \<Rightarrow> [c # []] | t # ts \<Rightarrow> (c # t) # ts))"

fun digit_of :: "nat \<Rightarrow> char" where
  "digit_of n = char_of (48 + n)"

function show_nat :: "nat \<Rightarrow> string" where
  \<comment> \<open>a number inside a template literal: its decimal digits\<close>
  "show_nat n = (if n < 10 then [digit_of n] else show_nat (n div 10) @ [digit_of (n mod 10)])"
  by pat_completeness auto
termination
  by (relation "measure id") auto

declare show_nat.simps [simp del]

section \<open>Regular expressions\<close>

text \<open>
  The patterns of the program are values of \<open>rx\<close>, and \<open>ms\<close> is a backtracking matcher
  that lists the ways the pattern matches at the start of the input in the order in which
  the JavaScript engine tries them (a quantifier takes as much as it can first, an
  alternation its left branch first). A way is the rest of the input after the match,
  with the text of capture group 1 when the group took part.
\<close>

datatype rx =
    Sym "char \<Rightarrow> bool"      \<comment> \<open>one character of a class\<close>
  | Seq rx rx
  | Alt rx rx
  | Opt rx                   \<comment> \<open>\<open>r?\<close>\<close>
  | Many "char \<Rightarrow> bool"     \<comment> \<open>\<open>[class]*\<close>\<close>
  | Cap rx                   \<comment> \<open>the capture group \<open>(r)\<close>\<close>
  | Eol                      \<comment> \<open>\<open>$\<close>, without the m flag\<close>

type_synonym mstate = "string \<times> string option"

fun many :: "(char \<Rightarrow> bool) \<Rightarrow> string \<Rightarrow> string list" where
  "many p [] = ['''']"
| "many p (x # xs) = (if p x then many p xs @ [x # xs] else [x # xs])"

fun ms :: "rx \<Rightarrow> mstate \<Rightarrow> mstate list" where
  "ms (Sym p) (s, g) = (case s of [] \<Rightarrow> [] | x # xs \<Rightarrow> if p x then [(xs, g)] else [])"
| "ms (Seq a b) st = concat (map (ms b) (ms a st))"
| "ms (Alt a b) st = ms a st @ ms b st"
| "ms (Opt a) st = ms a st @ [st]"
| "ms (Many p) (s, g) = map (\<lambda>r. (r, g)) (many p s)"
| "ms (Cap a) (s, g) = map (\<lambda>(r, _). (r, Some (take (length s - length r) s))) (ms a (s, g))"
| "ms Eol (s, g) = (if s = [] then [(s, g)] else [])"

definition match_at :: "rx \<Rightarrow> string \<Rightarrow> mstate option" where
  \<comment> \<open>the match the engine settles on at the start of the input\<close>
  "match_at r s = (case ms r (s, None) of [] \<Rightarrow> None | m # _ \<Rightarrow> Some m)"

fun exec_from :: "rx \<Rightarrow> string \<Rightarrow> mstate option" where
  \<comment> \<open>\<open>exec\<close> of an unanchored pattern: the first position with a match, left to right\<close>
  "exec_from r [] = match_at r []"
| "exec_from r (x # xs) =
     (case match_at r (x # xs) of None \<Rightarrow> exec_from r xs | Some m \<Rightarrow> Some m)"

definition lit :: "char \<Rightarrow> rx" where
  "lit c = Sym (\<lambda>x. x = c)"

fun text_then :: "string \<Rightarrow> rx \<Rightarrow> rx" where
  \<comment> \<open>a literal text, then \<open>r\<close>\<close>
  "text_then [] r = r"
| "text_then (c # cs) r = Seq (lit c) (text_then cs r)"

definition rep13 :: "rx \<Rightarrow> rx" where
  \<comment> \<open>\<open>r{1,3}\<close>\<close>
  "rep13 r = Seq r (Opt (Seq r (Opt r)))"

definition many1 :: "(char \<Rightarrow> bool) \<Rightarrow> rx" where
  \<comment> \<open>\<open>[class]+\<close>\<close>
  "many1 p = Seq (Sym p) (Many p)"

definition quad_rx :: rx where
  \<comment> \<open>\<open>[0-9]{1,3}\.[0-9]{1,3}\.[0-9]{1,3}\.[0-9]{1,3}\<close>\<close>
  "quad_rx =
     Seq (rep13 (Sym is_digit)) (Seq (lit CHR ''.'')
    (Seq (rep13 (Sym is_digit)) (Seq (lit CHR ''.'')
    (Seq (rep13 (Sym is_digit)) (Seq (lit CHR ''.'')
         (rep13 (Sym is_digit)))))))"

definition octet_rx :: rx where
  \<comment> \<open>\<open>(?:25[0-5]|2[0-4][0-9]|[01]?[0-9][0-9]?)\<close>\<close>
  "octet_rx =
     Alt (Seq (lit CHR ''2'') (Seq (lit CHR ''5'') (Sym (in_range CHR ''0'' CHR ''5''))))
    (Alt (Seq (lit CHR ''2'') (Seq (Sym (in_range CHR ''0'' CHR ''4'')) (Sym is_digit)))
         (Seq (Opt (Sym (in_range CHR ''0'' CHR ''1''))) (Seq (Sym is_digit) (Opt (Sym is_digit)))))"

definition ipRegex :: rx where
  \<comment> \<open>line 663, after \<open>^\<close>: \<open>(?:octet\.){3}octet$\<close>\<close>
  "ipRegex =
     Seq (Seq octet_rx (lit CHR ''.''))
    (Seq (Seq octet_rx (lit CHR ''.''))
    (Seq (Seq octet_rx (lit CHR ''.''))
    (Seq octet_rx Eol)))"

definition test_anchored :: "rx \<Rightarrow> string \<Rightarrow> bool" where
  \<comment> \<open>\<open>test\<close> and \<open>match\<close> of a pattern that starts with \<open>^\<close>: only index 0 is tried\<close>
  "test_anchored r s = (match_at r s \<noteq> None)"

definition token_rx :: rx where
  \<comment> \<open>line 281, after \<open>^\<close>: \<open>[0-9]{1,3}\.[0-9]{1,3}\.[0-9]{1,3}\.[0-9]{1,3}$\<close>\<close>
  "token_rx = Seq quad_rx Eol"

definition src_rx :: rx where
  \<comment> \<open>line 288: \<open>src\s+([0-9]{1,3}\.[0-9]{1,3}\.[0-9]{1,3}\.[0-9]{1,3})\<close>\<close>
  "src_rx = text_then ''src'' (Seq (many1 is_space) (Cap quad_rx))"

definition inet_rx :: rx where
  \<comment> \<open>line 294: \<open>inet\s+(?:addr:)?([0-9]{1,3}\.[0-9]{1,3}\.[0-9]{1,3}\.[0-9]{1,3})\<close>, flag g\<close>
  "inet_rx =
     text_then ''inet'' (Seq (many1 is_space)
       (Seq (Opt (text_then ''addr'' (lit CHR '':''))) (Cap quad_rx)))"

definition ipconfig_rx :: rx where
  \<comment> \<open>line 244: \<open>IPv4[^:]*:\s*([0-9]{1,3}\.[0-9]{1,3}\.[0-9]{1,3}\.[0-9]{1,3})\<close>, flag g\<close>
  "ipconfig_rx =
     text_then ''IPv4'' (Seq (Many (\<lambda>c. c \<noteq> CHR '':''))
       (Seq (lit CHR '':'') (Seq (Many is_space) (Cap quad_rx))))"

fun nullable :: "rx \<Rightarrow> bool" where
  \<comment> \<open>whether the pattern can match without taking a character\<close>
  "nullable (Sym p) = False"
| "nullable (Seq a b) = (nullable a \<and> nullable b)"
| "nullable (Alt a b) = (nullable a \<or> nullable b)"
| "nullable (Opt a) = True"
| "nullable (Many p) = True"
| "nullable (Cap a) = nullable a"
| "nullable Eol = True"

lemma many_length: "r \<in> set (many p s) \<Longrightarrow> length r \<le> length s"
  by (induction s) (auto split: if_splits)

lemma ms_length:
  "m \<in> set (ms r st) \<Longrightarrow>
     length (fst m) \<le> length (fst st) \<and> (\<not> nullable r \<longrightarrow> length (fst m) < length (fst st))"
proof (induction r arbitrary: st m)
  case (Sym p)
  then show ?case by (cases st) (auto split: list.splits if_splits)
next
  case (Seq a b)
  from Seq.prems obtain k where k: "k \<in> set (ms a st)" and m: "m \<in> set (ms b k)"
    by auto
  from Seq.IH(1) [OF k] Seq.IH(2) [OF m] show ?case by auto
next
  case (Alt a b)
  from Alt.prems have "m \<in> set (ms a st) \<or> m \<in> set (ms b st)" by simp
  then show ?case
  proof
    assume "m \<in> set (ms a st)"
    from Alt.IH(1) [OF this] show ?thesis by simp
  next
    assume "m \<in> set (ms b st)"
    from Alt.IH(2) [OF this] show ?thesis by simp
  qed
next
  case (Opt a)
  from Opt.prems have "m \<in> set (ms a st) \<or> m = st" by auto
  then show ?case
  proof
    assume "m \<in> set (ms a st)"
    from Opt.IH [OF this] show ?thesis by simp
  next
    assume "m = st"
    then show ?thesis by simp
  qed
next
  case (Many p)
  then show ?case by (cases st) (auto dest: many_length)
next
  case (Cap a)
  obtain s g where st: "st = (s, g)" by (cases st)
  from Cap.prems st obtain k where k: "k \<in> set (ms a (s, g))" and m: "fst m = fst k"
    by auto
  from Cap.IH [OF k] m st show ?case by simp
next
  case Eol
  then show ?case by (cases st) (auto split: if_splits)
qed

lemma exec_from_length:
  "exec_from r s = Some m \<Longrightarrow> \<not> nullable r \<Longrightarrow> length (fst m) < length s"
proof (induction s)
  case Nil
  then have "m \<in> set (ms r ([], None))"
    by (auto simp: match_at_def split: list.splits)
  from ms_length [OF this] Nil.prems(2) show ?case by simp
next
  case (Cons x xs)
  show ?case
  proof (cases "match_at r (x # xs)")
    case None
    with Cons show ?thesis by force
  next
    case (Some k)
    with Cons.prems have "m \<in> set (ms r (x # xs, None))"
      by (auto simp: match_at_def split: list.splits)
    from ms_length [OF this] Cons.prems(2) show ?thesis by simp
  qed
qed

datatype exn = SyntaxError | Error string | SystemError string | TypeError

function scan_matches :: "rx \<Rightarrow> (string \<Rightarrow> bool) \<Rightarrow> string \<Rightarrow> exn + string option" where
  \<comment> \<open>\<open>while ((match = re.exec(output)) !== null) { ip = match[1]; if (ok(ip)) return ip }\<close>
      for a pattern with flag g: each \<open>exec\<close> resumes where the last match ended. A
      pattern that matched the empty string would leave \<open>lastIndex\<close> in place; the
      patterns of the program take at least one character.\<close>
  "scan_matches r ok s =
     (if nullable r then Inr None
      else case exec_from r s of
             None \<Rightarrow> Inr None
           | Some (rest, g) \<Rightarrow>
               (case g of
                  None \<Rightarrow> Inl TypeError
                | Some ip \<Rightarrow> if ok ip then Inr (Some ip) else scan_matches r ok rest))"
  by pat_completeness auto
termination
  by (relation "measure (\<lambda>(r, ok, s). length s)") (auto dest: exec_from_length)

declare scan_matches.simps [simp del]

section \<open>JavaScript values\<close>

datatype jsval =
    JUndefined
  | JNull
  | JBool bool
  | JNum rat
  | JStr string
  | JArr "jsval list"
  | JObj "(string \<times> jsval) list"

fun truthy :: "jsval \<Rightarrow> bool" where
  "truthy JUndefined = False"
| "truthy JNull = False"
| "truthy (JBool b) = b"
| "truthy (JNum n) = (n \<noteq> 0)"
| "truthy (JStr s) = (s \<noteq> [])"
| "truthy (JArr xs) = True"
| "truthy (JObj kvs) = True"

fun typeof :: "jsval \<Rightarrow> string" where
  "typeof JUndefined = ''undefined''"
| "typeof JNull = ''object''"
| "typeof (JBool b) = ''boolean''"
| "typeof (JNum n) = ''number''"
| "typeof (JStr s) = ''string''"
| "typeof (JArr xs) = ''object''"
| "typeof (JObj kvs) = ''object''"

fun isArray :: "jsval \<Rightarrow> bool" where
  "isArray (JArr xs) = True"
| "isArray v = False"

fun upd :: "string \<Rightarrow> jsval \<Rightarrow> (string \<times> jsval) list \<Rightarrow> (string \<times> jsval) list" where
  "upd k v [] = [(k, v)]"
| "upd k v ((k', v') # kvs) = (if k' = k then (k, v) # kvs else (k', v') # upd k v kvs)"

fun get_prop :: "jsval \<Rightarrow> string \<Rightarrow> jsval" where
  \<comment> \<open>\<open>config.key\<close> for the three keys the program reads; a key the object lacks is \<open>undefined\<close>\<close>
  "get_prop (JObj kvs) k = (case map_of kvs k of None \<Rightarrow> JUndefined | Some v \<Rightarrow> v)"
| "get_prop v k = JUndefined"

fun set_prop :: "jsval \<Rightarrow> string \<Rightarrow> jsval \<Rightarrow> jsval" where
  \<comment> \<open>\<open>config.key = v\<close>; the program assigns to objects only\<close>
  "set_prop (JObj kvs) k v = JObj (upd k v kvs)"
| "set_prop c k v = c"

section \<open>The host and the world\<close>

datatype spawn_result = SpawnResult (status: "int option") (stdout: string)

datatype event =
    Spawned string "string list" "exn + spawn_result"   \<comment> \<open>a \<open>spawnSync\<close> call and what it gave\<close>
  | Prompted string jsval                               \<comment> \<open>a question put to the user, with its default\<close>

datatype net_addr = NetAddr (family: string) (internal: bool) (address: string)

datatype fsnode = File string | Dir

text \<open>
  What the program reads from its surroundings and from the libraries it calls.
  \<open>spawn\<close> answers a subprocess call; it sees the calls made so far, so the same command
  may answer differently later in the run.
\<close>

record host =
  platform :: string
  homedir :: string
  getuid :: nat
  environ :: "string \<rightharpoonup> string"
  networkInterfaces :: "exn + (string \<times> net_addr list) list"
  spawn :: "event list \<Rightarrow> string \<Rightarrow> string list \<Rightarrow> exn + spawn_result"
  path_join :: "string list \<Rightarrow> string"
  JSON_parse :: "string \<Rightarrow> jsval option"
  JSON_stringify :: "jsval \<Rightarrow> string"

record world =
  files :: "string \<rightharpoonup> fsnode"
  stdin :: "string list"
  trace :: "event list"

definition spawnSync :: "host \<Rightarrow> string \<Rightarrow> string list \<Rightarrow> world \<Rightarrow> (exn + spawn_result) \<times> world" where
  "spawnSync h cmd args w =
     (let r = spawn h (trace w) cmd args
      in (r, w\<lparr>trace := trace w @ [Spawned cmd args r]\<rparr>))"

definition existsSync :: "world \<Rightarrow> string \<Rightarrow> bool" where
  "existsSync w p = (files w p \<noteq> None)"

definition readFileSync :: "world \<Rightarrow> string \<Rightarrow> exn + string" where
  "readFileSync w p =
     (case files w p of
        None \<Rightarrow> Inl (SystemError ''ENOENT'')
      | Some Dir \<Rightarrow> Inl (SystemError ''EISDIR'')
      | Some (File c) \<Rightarrow> Inr c)"

definition writeFileSync :: "string \<Rightarrow> string \<Rightarrow> world \<Rightarrow> exn option \<times> world" where
  "writeFileSync p c w =
     (case files w p of
        Some Dir \<Rightarrow> (Some (SystemError ''EISDIR''), w)
      | _ \<Rightarrow> (None, w\<lparr>files := (files w)(p \<mapsto> File c)\<rparr>))"

section \<open>The program\<close>

definition getOS :: "host \<Rightarrow> string" where
  "getOS h = (if platform h \<in> set [''win32'', ''cygwin''] then ''windows'' else platform h)"

definition configPath :: "host \<Rightarrow> string" where
  "configPath h = path_join h [homedir h, ''.dexilion.cde.conf'']"

definition getConfig :: "host \<Rightarrow> world \<Rightarrow> exn + jsval option" where
  "getConfig h w =
     (case (if existsSync w (configPath h) then
              (case readFileSync w (configPath h) of
                 Inl e \<Rightarrow> Inl e
               | Inr configContent \<Rightarrow>
                   (case JSON_parse h configContent of
                      None \<Rightarrow> Inl SyntaxError
                    | Some config \<Rightarrow>
                        if typeof config \<noteq> ''object'' \<or> config = JNull \<or> isArray config
                        then Inl (Error ''Configuration file must contain a JSON object'')
                        else Inr (Some config)))
            else Inr None) of
        Inl SyntaxError \<Rightarrow> Inl (Error (''Invalid JSON in configuration file: '' @ configPath h))
      | Inl error \<Rightarrow> Inl error
      | Inr r \<Rightarrow> Inr r)"

definition commandExists :: "host \<Rightarrow> string \<Rightarrow> world \<Rightarrow> bool \<times> world" where
  "commandExists h command w =
     (case spawnSync h (if getOS h = ''windows'' then ''where'' else ''which'') [command] w of
        (Inl e, w') \<Rightarrow> (False, w')
      | (Inr result, w') \<Rightarrow> (status result = Some 0, w'))"

definition validation_args :: "string \<Rightarrow> string list" where
  "validation_args socketPath =
     [''run'', ''--rm'', ''-v'', socketPath @ '':/var/run/docker.sock'',
      ''alpinelinux/docker-cli'', ''docker'', ''version'', ''--format'', ''json'']"

definition checkDockerSocketAccess :: "host \<Rightarrow> string \<Rightarrow> world \<Rightarrow> bool \<times> world" where
  "checkDockerSocketAccess h socketPath w =
     (case commandExists h ''docker'' w of
        (found, w1) \<Rightarrow>
          (let dockerCommand = (if found then ''docker'' else ''podman'') in
           case spawnSync h dockerCommand (validation_args socketPath) w1 of
             (Inl e, w2) \<Rightarrow> (False, w2)
           | (Inr result, w2) \<Rightarrow> (status result = Some 0, w2)))"

definition defaultSocketPaths :: "host \<Rightarrow> string list" where
  "defaultSocketPaths h =
     [''/var/run/docker.sock'',
      ''/run/docker.sock'',
      path_join h [homedir h, ''.docker/desktop/docker.sock''],
      ''/usr/local/var/run/docker.sock'']
     @ (if getOS h \<noteq> ''windows''
        then [''/run/user/'' @ show_nat (getuid h) @ ''/docker.sock'',
              ''/run/user/'' @ show_nat (getuid h) @ ''/podman/podman.sock'']
        else [])"

fun first_accessible :: "host \<Rightarrow> string list \<Rightarrow> world \<Rightarrow> string option \<times> world" where
  \<comment> \<open>the loop of lines 136 to 142\<close>
  "first_accessible h [] w = (None, w)"
| "first_accessible h (socketPath # rest) w =
     (case checkDockerSocketAccess h socketPath w of
        (ok, w') \<Rightarrow> if ok then (Some socketPath, w') else first_accessible h rest w')"

definition getDockerSocketPath :: "host \<Rightarrow> world \<Rightarrow> string option \<times> world" where
  "getDockerSocketPath h w = first_accessible h (defaultSocketPaths h) w"

definition env_or :: "host \<Rightarrow> string \<Rightarrow> string \<Rightarrow> string" where
  \<comment> \<open>\<open>process.env.NAME || d\<close>\<close>
  "env_or h name d = (case environ h name of None \<Rightarrow> d | Some v \<Rightarrow> if v \<noteq> [] then v else d)"

definition env_text :: "host \<Rightarrow> string \<Rightarrow> string" where
  \<comment> \<open>\<open>${process.env.NAME}\<close>\<close>
  "env_text h name = (case environ h name of None \<Rightarrow> ''undefined'' | Some v \<Rightarrow> v)"

definition alternativePaths :: "host \<Rightarrow> string list" where
  "alternativePaths h =
     [path_join h [env_or h ''USERPROFILE'' (homedir h), ''.ssh''],
      path_join h [env_or h ''HOMEDRIVE'' ''C:'',
                   env_or h ''HOMEPATH'' ([CHR 0x5C] @ ''Users'' @ [CHR 0x5C] @ env_text h ''USERNAME''),
                   ''.ssh''],
      path_join h [''C:'', ''Users'', env_or h ''USERNAME'' ''user'', ''.ssh'']]"

definition getSshDirectory :: "host \<Rightarrow> world \<Rightarrow> string option" where
  "getSshDirectory h w =
     (let defaultSshPath = path_join h [homedir h, ''.ssh''] in
      if existsSync w defaultSshPath then Some defaultSshPath
      else if getOS h = ''windows'' then find (existsSync w) (alternativePaths h)
      else None)"

definition eligible :: "net_addr \<Rightarrow> bool" where
  \<comment> \<open>\<open>addr.family === 'IPv4' && !addr.internal\<close>\<close>
  "eligible addr = (family addr = ''IPv4'' \<and> \<not> internal addr)"

fun scan_interfaces :: "(string \<Rightarrow> bool) \<Rightarrow> (string \<times> net_addr list) list \<Rightarrow> string option" where
  \<comment> \<open>\<open>for (const name of Object.keys(nets))\<close> with the inner loop over the addresses\<close>
  "scan_interfaces sel [] = None"
| "scan_interfaces sel ((name, net) # rest) =
     (if sel name then
        (case find eligible net of
           Some addr \<Rightarrow> Some (address addr)
         | None \<Rightarrow> scan_interfaces sel rest)
      else scan_interfaces sel rest)"

definition interfacePriority :: "string list" where
  "interfacePriority = [''eth'', ''en'', ''wlan'', ''wifi'', ''ethernet'']"

fun first_pass :: "string list \<Rightarrow> (string \<times> net_addr list) list \<Rightarrow> string option" where
  \<comment> \<open>\<open>for (const priority of interfacePriority)\<close>\<close>
  "first_pass [] nets = None"
| "first_pass (priority # rest) nets =
     (case scan_interfaces (\<lambda>name. startsWith (toLowerCase name) priority) nets of
        Some a \<Rightarrow> Some a
      | None \<Rightarrow> first_pass rest nets)"

definition second_pass :: "(string \<times> net_addr list) list \<Rightarrow> string option" where
  "second_pass nets = scan_interfaces (\<lambda>name. True) nets"

definition not_excluded :: "string \<Rightarrow> bool" where
  \<comment> \<open>\<open>!ip.startsWith('127.') && !ip.startsWith('169.254.')\<close>\<close>
  "not_excluded ip = (\<not> startsWith ip ''127.'' \<and> \<not> startsWith ip ''169.254.'')"

definition commands :: "(string \<times> string list option) list" where
  "commands =
     [(''hostname'', Some [''-I'']),
      (''ip'', Some [''route'', ''get'', ''1.1.1.1'']),
      (''ifconfig'', None),
      (''route'', Some [''get'', ''default''])]"

definition parse_output :: "string \<Rightarrow> string list option \<Rightarrow> string \<Rightarrow> exn + string option" where
  \<comment> \<open>lines 277 to 302: what one command's output gives; \<open>Inr None\<close> is falling out of the branch\<close>
  "parse_output cmd args output =
     (if cmd = ''hostname'' \<and> (case args of Some (a # _) \<Rightarrow> a = ''-I'' | _ \<Rightarrow> False) then
        Inr (find (\<lambda>ip. test_anchored token_rx ip \<and> not_excluded ip) (split_ws (trim output)))
      else if cmd = ''ip'' then
        (case exec_from src_rx output of
           Some (rest, srcMatch1) \<Rightarrow> Inr srcMatch1
         | None \<Rightarrow> Inr None)
      else scan_matches inet_rx not_excluded output)"

fun try_commands :: "host \<Rightarrow> (string \<times> string list option) list \<Rightarrow> world \<Rightarrow> string option \<times> world" where
  \<comment> \<open>\<open>for (const [cmd, args] of commands)\<close>; a thrown error continues with the next command\<close>
  "try_commands h [] w = (None, w)"
| "try_commands h ((cmd, args) # rest) w =
     (case spawnSync h cmd (case args of None \<Rightarrow> [] | Some a \<Rightarrow> a) w of
        (Inl e, w') \<Rightarrow> try_commands h rest w'
      | (Inr result, w') \<Rightarrow>
          if status result = Some 0 \<and> stdout result \<noteq> [] then
            (case parse_output cmd args (stdout result) of
               Inr (Some ip) \<Rightarrow> (Some ip, w')
             | Inr None \<Rightarrow> try_commands h rest w'
             | Inl e \<Rightarrow> try_commands h rest w')
          else try_commands h rest w')"

definition getExternalIPCommandLine :: "host \<Rightarrow> world \<Rightarrow> string option \<times> world" where
  "getExternalIPCommandLine h w =
     (if getOS h = ''windows'' then
        (case spawnSync h ''ipconfig'' [] w of
           (Inl e, w') \<Rightarrow> (None, w')
         | (Inr result, w') \<Rightarrow>
             if status result = Some 0 \<and> stdout result \<noteq> [] then
               (case scan_matches ipconfig_rx not_excluded (stdout result) of
                  Inr (Some ip) \<Rightarrow> (Some ip, w')
                | Inr None \<Rightarrow> (None, w')
                | Inl e \<Rightarrow> (None, w'))
             else (None, w'))
      else try_commands h commands w)"

definition getExternalIP :: "host \<Rightarrow> world \<Rightarrow> string option \<times> world" where
  "getExternalIP h w =
     (case networkInterfaces h of
        Inl error \<Rightarrow> getExternalIPCommandLine h w
      | Inr nets \<Rightarrow>
          (case first_pass interfacePriority nets of
             Some a \<Rightarrow> (Some a, w)
           | None \<Rightarrow>
               (case second_pass nets of
                  Some a \<Rightarrow> (Some a, w)
                | None \<Rightarrow> getExternalIPCommandLine h w)))"

definition promptUser :: "string \<Rightarrow> jsval \<Rightarrow> world \<Rightarrow> jsval option \<times> world" where
  \<comment> \<open>one line of the terminal answers the question; with no line left the promise never
      resolves, which is the result \<open>None\<close>\<close>
  "promptUser question defaultValue w =
     (case stdin w of
        [] \<Rightarrow> (None, w\<lparr>trace := trace w @ [Prompted question defaultValue]\<rparr>)
      | answer # rest \<Rightarrow>
          (Some (if trim answer \<noteq> [] then JStr (trim answer) else defaultValue),
           w\<lparr>stdin := rest, trace := trace w @ [Prompted question defaultValue]\<rparr>))"

definition configData :: "jsval \<Rightarrow> jsval" where
  "configData config =
     JObj [(''dockerSocket'', get_prop config ''dockerSocket''),
           (''sshKeysDir'', get_prop config ''sshKeysDir''),
           (''externalIP'', get_prop config ''externalIP'')]"

definition saveConfig :: "host \<Rightarrow> jsval \<Rightarrow> world \<Rightarrow> exn option \<times> world" where
  "saveConfig h config w = writeFileSync (configPath h) (JSON_stringify h (configData config)) w"

definition pingArgs :: "host \<Rightarrow> string \<Rightarrow> string list" where
  "pingArgs h ip =
     (if getOS h = ''windows'' then [''-n'', ''1'', ''-w'', ''1000'', ip]
      else if platform h = ''darwin'' then [''-c'', ''1'', ''-W'', ''1000'', ip]
      else [''-c'', ''1'', ''-W'', ''1'', ip])"

definition isIPAvailable :: "host \<Rightarrow> jsval \<Rightarrow> world \<Rightarrow> bool \<times> world" where
  "isIPAvailable h ip w =
     (if \<not> truthy ip \<or> typeof ip \<noteq> ''string'' then (False, w)
      else case ip of
             JStr s \<Rightarrow>
               if \<not> test_anchored ipRegex s then (False, w)
               else (case spawnSync h ''ping'' (pingArgs h s) w of
                       (Inl error, w') \<Rightarrow> (False, w')
                     | (Inr result, w') \<Rightarrow> (status result = Some 0, w'))
           | _ \<Rightarrow> (False, w))"

datatype outcome =
    Exited int        \<comment> \<open>\<open>process.exit\<close>\<close>
  | Crashed exn       \<comment> \<open>an error thrown out of \<open>main\<close>\<close>
  | Stalled           \<comment> \<open>a prompt that gets no answer\<close>
  | Launched jsval    \<comment> \<open>\<open>runDockerContainer(config)\<close> is called\<close>

definition or_empty :: "string option \<Rightarrow> jsval" where
  \<comment> \<open>\<open>found || ''\<close>\<close>
  "or_empty found = JStr (case found of None \<Rightarrow> [] | Some s \<Rightarrow> s)"

definition gather_socket :: "host \<Rightarrow> jsval \<Rightarrow> world \<Rightarrow> (outcome + jsval) \<times> world" where
  \<comment> \<open>lines 747 to 754\<close>
  "gather_socket h config w =
     (if \<not> truthy (get_prop config ''dockerSocket'') then
        (case getDockerSocketPath h w of
           (found, w1) \<Rightarrow>
             (case promptUser ''Docker Socket path'' (or_empty found) w1 of
                (None, w2) \<Rightarrow> (Inl Stalled, w2)
              | (Some answer, w2) \<Rightarrow>
                  if \<not> truthy answer then (Inl (Exited 1), w2)
                  else (Inr (set_prop config ''dockerSocket'' answer), w2)))
      else (Inr config, w))"

definition gather_address :: "host \<Rightarrow> jsval \<Rightarrow> world \<Rightarrow> (outcome + jsval) \<times> world" where
  \<comment> \<open>lines 756 to 763\<close>
  "gather_address h config w =
     (if \<not> truthy (get_prop config ''externalIP'') then
        (case getExternalIP h w of
           (found, w1) \<Rightarrow>
             (case promptUser ''IP address for React Native packager'' (or_empty found) w1 of
                (None, w2) \<Rightarrow> (Inl Stalled, w2)
              | (Some answer, w2) \<Rightarrow>
                  if \<not> truthy answer then (Inl (Exited 1), w2)
                  else (Inr (set_prop config ''externalIP'' answer), w2)))
      else (Inr config, w))"

definition gather_ssh :: "host \<Rightarrow> jsval \<Rightarrow> world \<Rightarrow> (outcome + jsval) \<times> world" where
  \<comment> \<open>lines 765 to 775\<close>
  "gather_ssh h config w =
     (case getSshDirectory h w of
        None \<Rightarrow>
          (case promptUser ''SSH Keys directory (leave empty to skip)'' (JStr []) w of
             (None, w1) \<Rightarrow> (Inl Stalled, w1)
           | (Some sshKeysDir, w1) \<Rightarrow>
               if truthy sshKeysDir \<and> (case sshKeysDir of JStr p \<Rightarrow> existsSync w1 p | _ \<Rightarrow> False)
               then (Inr (set_prop config ''sshKeysDir'' sshKeysDir), w1)
               else (Inr config, w1))
      | Some sshKeysDir \<Rightarrow> (Inr (set_prop config ''sshKeysDir'' (JStr sshKeysDir)), w))"

definition gather :: "host \<Rightarrow> jsval \<Rightarrow> world \<Rightarrow> (outcome + jsval) \<times> world" where
  \<comment> \<open>lines 746 to 778, the body of the first \<open>if\<close> of \<open>main\<close>\<close>
  "gather h config w =
     (case gather_socket h config w of
        (Inl out, w1) \<Rightarrow> (Inl out, w1)
      | (Inr config1, w1) \<Rightarrow>
     (case gather_address h config1 w1 of
        (Inl out, w2) \<Rightarrow> (Inl out, w2)
      | (Inr config2, w2) \<Rightarrow>
     (case gather_ssh h config2 w2 of
        (Inl out, w3) \<Rightarrow> (Inl out, w3)
      | (Inr config3, w3) \<Rightarrow>
     (case saveConfig h config3 w3 of
        (Some error, w4) \<Rightarrow> (Inl (Crashed error), w4)
      | (None, w4) \<Rightarrow> (Inr config3, w4)))))"

definition load_and_gather :: "host \<Rightarrow> world \<Rightarrow> (outcome + jsval) \<times> world" where
  \<comment> \<open>lines 743 to 781\<close>
  "load_and_gather h w =
     (case getConfig h w of
        Inl error \<Rightarrow> (Inl (Crashed error), w)
      | Inr loaded \<Rightarrow>
          (let config = (case loaded of None \<Rightarrow> JObj [] | Some c \<Rightarrow> c) in
           if \<not> truthy config \<or> \<not> truthy (get_prop config ''externalIP'')
              \<or> \<not> truthy (get_prop config ''externalIP'')
           then gather h config w
           else (Inr config, w)))"

definition revalidate :: "host \<Rightarrow> jsval \<Rightarrow> world \<Rightarrow> outcome \<times> world" where
  \<comment> \<open>lines 783 to 793\<close>
  "revalidate h config w =
     (case isIPAvailable h (get_prop config ''externalIP'') w of
        (available, w1) \<Rightarrow>
          if \<not> available then
            (case getExternalIP h w1 of
               (found, w2) \<Rightarrow>
                 (case promptUser ''Please provide an available IP address''
                         (case found of
                            Some a \<Rightarrow> if a \<noteq> [] then JStr a else get_prop config ''externalIP''
                          | None \<Rightarrow> get_prop config ''externalIP'') w2 of
                    (None, w3) \<Rightarrow> (Stalled, w3)
                  | (Some answer, w3) \<Rightarrow> (Launched (set_prop config ''externalIP'' answer), w3)))
          else (Launched config, w1))"

definition main :: "host \<Rightarrow> world \<Rightarrow> outcome \<times> world" where
  "main h w =
     (case load_and_gather h w of
        (Inl out, w1) \<Rightarrow> (out, w1)
      | (Inr config, w1) \<Rightarrow> revalidate h config w1)"

section \<open>Notions the properties are stated with\<close>

definition events_since :: "world \<Rightarrow> world \<Rightarrow> event list" where
  \<comment> \<open>what the trace of \<open>w'\<close> holds beyond the length of the trace of \<open>w\<close>\<close>
  "events_since w w' = drop (length (trace w)) (trace w')"

definition validated :: "string \<Rightarrow> event list \<Rightarrow> bool" where
  \<comment> \<open>among the events there is a validation round-trip for this very path that exited with 0\<close>
  "validated p evs =
     list_ex (\<lambda>ev. case ev of
                     Spawned cmd args (Inr res) \<Rightarrow> args = validation_args p \<and> status res = Some 0
                   | _ \<Rightarrow> False) evs"

definition claimed_CandidateList :: "host \<Rightarrow> string list" where
  \<comment> \<open>the candidate list in the order the specification gives\<close>
  "claimed_CandidateList h =
     (if getOS h = ''windows'' then
        [''/var/run/docker.sock'',
         path_join h [homedir h, ''.docker/desktop/docker.sock''],
         ''/usr/local/var/run/docker.sock'']
      else
        [''/var/run/docker.sock'',
         ''/run/user/'' @ show_nat (getuid h) @ ''/docker.sock'',
         path_join h [homedir h, ''.docker/desktop/docker.sock''],
         ''/usr/local/var/run/docker.sock'',
         ''/run/user/'' @ show_nat (getuid h) @ ''/podman/podman.sock''])"

definition priority_named :: "string \<Rightarrow> bool" where
  \<comment> \<open>the name starts with a priority prefix, whatever the case of its letters\<close>
  "priority_named name = list_ex (\<lambda>p. startsWith (toLowerCase name) p) interfacePriority"

definition has_eligible :: "string \<times> net_addr list \<Rightarrow> bool" where
  "has_eligible iface = list_ex eligible (snd iface)"

definition eligible_addresses :: "(string \<times> net_addr list) list \<Rightarrow> string list" where
  \<comment> \<open>the non-internal IPv4 addresses of all interfaces, in enumeration order\<close>
  "eligible_addresses nets = map address (filter eligible (concat (map snd nets)))"

fun split_dots :: "string \<Rightarrow> string list" where
  \<comment> \<open>the fields between the dots\<close>
  "split_dots [] = ['''']"
| "split_dots (c # cs) =
     (if c = CHR ''.'' then [] # split_dots cs
      else (case split_dots cs of [] \<Rightarrow> [c # []] | t # ts \<Rightarrow> (c # t) # ts))"

definition dec_value :: "string \<Rightarrow> nat" where
  \<comment> \<open>the number a string of decimal digits denotes\<close>
  "dec_value s = foldl (\<lambda>n c. 10 * n + (ord c - 48)) 0 s"

definition is_octet :: "string \<Rightarrow> bool" where
  \<comment> \<open>one to three decimal digits that denote a number from 0 to 255\<close>
  "is_octet s = (s \<noteq> [] \<and> length s \<le> 3 \<and> list_all is_digit s \<and> dec_value s \<le> 255)"

definition dotted_quad :: "string \<Rightarrow> bool" where
  \<comment> \<open>exactly four dot-separated octets\<close>
  "dotted_quad s = (length (split_dots s) = 4 \<and> list_all is_octet (split_dots s))"

fun eolfree :: "rx \<Rightarrow> bool" where
  "eolfree (Sym p) = True"
| "eolfree (Seq a b) = (eolfree a \<and> eolfree b)"
| "eolfree (Alt a b) = (eolfree a \<and> eolfree b)"
| "eolfree (Opt a) = eolfree a"
| "eolfree (Many p) = True"
| "eolfree (Cap a) = eolfree a"
| "eolfree Eol = False"

fun lang :: "rx \<Rightarrow> string set" where
  \<comment> \<open>the texts a pattern without \<open>$\<close> matches\<close>
  "lang (Sym p) = {[x] | x. p x}"
| "lang (Seq a b) = {u @ v | u v. u \<in> lang a \<and> v \<in> lang b}"
| "lang (Alt a b) = lang a \<union> lang b"
| "lang (Opt a) = insert [] (lang a)"
| "lang (Many p) = {u. \<forall>x \<in> set u. p x}"
| "lang (Cap a) = lang a"
| "lang Eol = {[]}"

definition octet_fields :: "nat \<Rightarrow> string \<Rightarrow> bool" where
  \<comment> \<open>exactly \<open>n\<close> dot-separated fields, each an octet\<close>
  "octet_fields n s = (length (split_dots s) = n \<and> list_all is_octet (split_dots s))"

section \<open>Sample hosts\<close>

text \<open>
  Concrete hosts for the worked examples. \<open>sample_join\<close>, \<open>sample_parse\<close> and
  \<open>sample_stringify\<close> stand for \<open>path.join\<close>, \<open>JSON.parse\<close> and \<open>JSON.stringify\<close>
  on the paths and texts of the examples.
\<close>

fun sample_join :: "string list \<Rightarrow> string" where
  "sample_join [] = ''.''"
| "sample_join [a] = a"
| "sample_join (a # b # rest) = a @ ''/'' @ sample_join (b # rest)"

definition quoted :: "string \<Rightarrow> string" where
  "quoted s = CHR 0x22 # s @ [CHR 0x22]"

definition stale_text :: string where
  \<comment> \<open>a configuration file with both required keys\<close>
  "stale_text =
     ''{'' @ quoted ''dockerSocket'' @ '':'' @ quoted ''/var/run/docker.sock'' @ '','' @
     quoted ''externalIP'' @ '':'' @ quoted ''10.0.0.5'' @ ''}''"

definition partial_text :: string where
  \<comment> \<open>a configuration file with \<open>externalIP\<close> and without \<open>dockerSocket\<close>\<close>
  "partial_text = ''{'' @ quoted ''externalIP'' @ '':'' @ quoted ''10.0.0.5'' @ ''}''"

definition sample_parse :: "string \<Rightarrow> jsval option" where
  "sample_parse s =
     (if s = stale_text then
        Some (JObj [(''dockerSocket'', JStr ''/var/run/docker.sock''), (''externalIP'', JStr ''10.0.0.5'')])
      else if s = partial_text then Some (JObj [(''externalIP'', JStr ''10.0.0.5'')])
      else if s = ''{}'' then Some (JObj [])
      else if s = ''[]'' then Some (JArr [])
      else if s = ''null'' then Some JNull
      else if s = ''42'' then Some (JNum 42)
      else None)"

fun sample_lines :: "(string \<times> jsval) list \<Rightarrow> string list" where
  "sample_lines [] = []"
| "sample_lines ((k, v) # kvs) =
     (case v of
        JStr s \<Rightarrow> (''  '' @ quoted k @ '': '' @ quoted s) # sample_lines kvs
      | JUndefined \<Rightarrow> sample_lines kvs
      | _ \<Rightarrow> (''  '' @ quoted k @ '': null'') # sample_lines kvs)"

fun commas :: "string list \<Rightarrow> string" where
  "commas [] = []"
| "commas [l] = l @ [CHR 0x0A]"
| "commas (l # m # ls) = l @ '','' @ [CHR 0x0A] @ commas (m # ls)"

definition sample_stringify :: "jsval \<Rightarrow> string" where
  "sample_stringify v =
     (case v of
        JObj kvs \<Rightarrow> (if sample_lines kvs = [] then ''{}'' else ''{'' @ [CHR 0x0A] @ commas (sample_lines kvs) @ ''}'')
      | _ \<Rightarrow> ''null'')"

definition sample_host ::
  "string \<Rightarrow> (event list \<Rightarrow> string \<Rightarrow> string list \<Rightarrow> exn + spawn_result)
     \<Rightarrow> exn + (string \<times> net_addr list) list \<Rightarrow> host" where
  "sample_host plat sp nets =
     \<lparr>platform = plat, homedir = ''/home/dev'', getuid = 1000, environ = Map.empty,
      networkInterfaces = nets, spawn = sp, path_join = sample_join,
      JSON_parse = sample_parse, JSON_stringify = sample_stringify\<rparr>"

definition sample_world :: "(string \<times> fsnode) list \<Rightarrow> string list \<Rightarrow> world" where
  "sample_world fs answers = \<lparr>files = map_of fs, stdin = answers, trace = []\<rparr>"

definition exits :: "int \<Rightarrow> exn + spawn_result" where
  \<comment> \<open>a subprocess that ran and exited with this status, printing nothing\<close>
  "exits n = Inr (SpawnResult (Some n) [])"

definition prints :: "string \<Rightarrow> exn + spawn_result" where
  \<comment> \<open>a subprocess that exited with 0 and printed this text\<close>
  "prints out = Inr (SpawnResult (Some 0) out)"

definition docker_at :: "string \<Rightarrow> event list \<Rightarrow> string \<Rightarrow> string list \<Rightarrow> exn + spawn_result" where
  \<comment> \<open>docker is installed and its daemon answers on this socket only\<close>
  "docker_at p tr cmd args =
     (if cmd = ''which'' \<and> args = [''docker''] then prints ''/usr/bin/docker''
      else if cmd = ''docker'' \<and> args = validation_args p then prints ''{}''
      else exits 1)"

definition nothing_runs :: "event list \<Rightarrow> string \<Rightarrow> string list \<Rightarrow> exn + spawn_result" where
  "nothing_runs tr cmd args = exits 1"

definition docker_host :: host where
  \<comment> \<open>a Linux host whose docker daemon listens on \<open>/run/docker.sock\<close>\<close>
  "docker_host = sample_host ''linux'' (docker_at ''/run/docker.sock'') (Inr [])"

definition bare_host :: host where
  \<comment> \<open>a Linux host on which every subprocess exits with status 1\<close>
  "bare_host = sample_host ''linux'' nothing_runs (Inr [])"

definition windows_host :: host where
  "windows_host = sample_host ''win32'' nothing_runs (Inr [])"

definition empty_world :: world where
  "empty_world = sample_world [] []"

definition conf_world :: "string \<Rightarrow> world" where
  \<comment> \<open>only the configuration file exists, with this text\<close>
  "conf_world text = sample_world [(''/home/dev/.dexilion.cde.conf'', File text)] []"

definition laptop_nets :: "(string \<times> net_addr list) list" where
  "laptop_nets =
     [(''lo'', [NetAddr ''IPv4'' True ''127.0.0.1'']),
      (''docker0'', [NetAddr ''IPv4'' False ''172.17.0.1'']),
      (''Ethernet 2'', [NetAddr ''IPv6'' False ''fe80::1'', NetAddr ''IPv4'' False ''192.168.1.42''])]"

definition virtual_nets :: "(string \<times> net_addr list) list" where
  "virtual_nets =
     [(''lo'', [NetAddr ''IPv4'' True ''127.0.0.1'']),
      (''docker0'', [NetAddr ''IPv4'' False ''172.17.0.1'']),
      (''tun0'', [NetAddr ''IPv4'' False ''10.8.0.2''])]"

definition laptop_host :: host where
  \<comment> \<open>the wired interface comes last in the enumeration\<close>
  "laptop_host = sample_host ''win32'' nothing_runs (Inr laptop_nets)"

definition tunnel_host :: host where
  \<comment> \<open>no interface has a priority name\<close>
  "tunnel_host = sample_host ''linux'' nothing_runs (Inr virtual_nets)"

definition stale_world :: "string list \<Rightarrow> world" where
  \<comment> \<open>a complete configuration file with the address \<open>10.0.0.5\<close>, and the user's answers\<close>
  "stale_world answers = sample_world [(''/home/dev/.dexilion.cde.conf'', File stale_text)] answers"

definition office_nets :: "(string \<times> net_addr list) list" where
  "office_nets =
     [(''lo'', [NetAddr ''IPv4'' True ''127.0.0.1'']),
      (''eth0'', [NetAddr ''IPv4'' False ''10.0.0.5''])]"

definition fresh_host :: host where
  \<comment> \<open>a Linux host with docker on the standard socket and one wired interface\<close>
  "fresh_host = sample_host ''linux'' (docker_at ''/var/run/docker.sock'') (Inr office_nets)"

definition first_run :: world where
  \<comment> \<open>no file exists; the user accepts both defaults, then names a directory\<close>
  "first_run = sample_world [] ['''', '''', ''/nope/.ssh'']"

definition ping_answers :: "event list \<Rightarrow> string \<Rightarrow> string list \<Rightarrow> exn + spawn_result" where
  \<comment> \<open>some host answers every echo request; nothing else runs\<close>
  "ping_answers tr cmd args = (if cmd = ''ping'' then prints ''1 packets transmitted, 1 received'' else exits 1)"

definition answering_host :: host where
  "answering_host = sample_host ''linux'' ping_answers (Inr [])"

definition partial_world :: world where
  \<comment> \<open>the configuration file has \<open>externalIP\<close> and no \<open>dockerSocket\<close>\<close>
  "partial_world = conf_world partial_text"

definition route_text :: string where
  \<comment> \<open>what \<open>ip route get 1.1.1.1\<close> prints on a network with link-local addresses only\<close>
  "route_text = ''1.1.1.1 dev eth0 src 169.254.7.9 uid 1000''"

definition link_local :: "event list \<Rightarrow> string \<Rightarrow> string list \<Rightarrow> exn + spawn_result" where
  \<comment> \<open>\<open>hostname -I\<close> is not supported, \<open>ip route get\<close> answers\<close>
  "link_local tr cmd args = (if cmd = ''ip'' then prints route_text else exits 1)"

definition link_local_host :: host where
  "link_local_host = sample_host ''linux'' link_local (Inr [])"


section \<open>Effects on the world\<close>

lemma spawnSync_trace:
  "spawnSync h cmd args w = (r, w') \<Longrightarrow>
     w' = w\<lparr>trace := trace w @ [Spawned cmd args r]\<rparr> \<and> r = spawn h (trace w) cmd args"
  by (auto simp: spawnSync_def Let_def)

lemma commandExists_trace:
  "commandExists h c w = (b, w') \<Longrightarrow> \<exists>ev. w' = w\<lparr>trace := trace w @ [ev]\<rparr>"
  by (auto simp: commandExists_def spawnSync_def Let_def split: sum.splits)

lemma checkDockerSocketAccess_trace:
  assumes "checkDockerSocketAccess h p w = (ok, w')"
  shows "\<exists>ev cmd r. w' = w\<lparr>trace := trace w @ [ev, Spawned cmd (validation_args p) r]\<rparr>
            \<and> (ok \<longleftrightarrow> (\<exists>res. r = Inr res \<and> status res = Some 0))"
proof -
  obtain found w1 where c: "commandExists h ''docker'' w = (found, w1)"
    by (cases "commandExists h ''docker'' w")
  from commandExists_trace [OF c] obtain ev where w1: "w1 = w\<lparr>trace := trace w @ [ev]\<rparr>" ..
  let ?cmd = "if found then ''docker'' else ''podman''"
  obtain r w2 where s: "spawnSync h ?cmd (validation_args p) w1 = (r, w2)"
    by (cases "spawnSync h ?cmd (validation_args p) w1")
  from spawnSync_trace [OF s] w1
  have w2: "w2 = w\<lparr>trace := trace w @ [ev, Spawned ?cmd (validation_args p) r]\<rparr>"
    by simp
  from assms c s have "w' = w2" and "ok \<longleftrightarrow> (\<exists>res. r = Inr res \<and> status res = Some 0)"
    by (auto simp: checkDockerSocketAccess_def Let_def split: sum.splits)
  with w2 show ?thesis by (intro exI [of _ ev] exI [of _ ?cmd] exI [of _ r]) simp
qed

section \<open>Socket discovery\<close>

lemma validated_append: "validated p evs \<Longrightarrow> validated p (pre @ evs)"
  by (simp add: validated_def)

lemma first_accessible_validated:
  "first_accessible h ps w = (r, w') \<Longrightarrow>
     \<exists>evs. trace w' = trace w @ evs \<and> (\<forall>p. r = Some p \<longrightarrow> p \<in> set ps \<and> validated p evs)"
proof (induction ps arbitrary: w)
  case Nil
  then show ?case by simp
next
  case (Cons q qs)
  obtain ok w1 where c: "checkDockerSocketAccess h q w = (ok, w1)"
    by (cases "checkDockerSocketAccess h q w")
  from checkDockerSocketAccess_trace [OF c] obtain ev cmd res where
    w1: "w1 = w\<lparr>trace := trace w @ [ev, Spawned cmd (validation_args q) res]\<rparr>" and
    ok: "ok \<longleftrightarrow> (\<exists>x. res = Inr x \<and> status x = Some 0)"
    by blast
  show ?case
  proof (cases ok)
    case True
    with Cons.prems c have "r = Some q" "w' = w1" by simp_all
    moreover from True ok obtain x where "res = Inr x" "status x = Some 0" by blast
    ultimately show ?thesis using w1
      by (auto simp: validated_def)
  next
    case False
    with Cons.prems c have "first_accessible h qs w1 = (r, w')" by simp
    from Cons.IH [OF this] obtain evs where
      e: "trace w' = trace w1 @ evs" "\<forall>p. r = Some p \<longrightarrow> p \<in> set qs \<and> validated p evs"
      by blast
    let ?pre = "[ev, Spawned cmd (validation_args q) res]"
    from e(1) w1 have "trace w' = trace w @ (?pre @ evs)" by simp
    moreover from e(2) have "\<forall>p. r = Some p \<longrightarrow> p \<in> set (q # qs) \<and> validated p (?pre @ evs)"
      using validated_append [of _ evs ?pre] by auto
    ultimately show ?thesis by blast
  qed
qed

text \<open>
  C3. Socket discovery returns a path only when, during this very call, the validation
  round-trip for that exact path ran and exited with status 0, and the path is one of the
  candidates. When no candidate's round-trip of the call succeeded, the result is "not
  found". The result is always a path or "not found": the function has no error result.
\<close>

theorem getDockerSocketPath_validated:
  assumes "getDockerSocketPath h w = (r, w')"
  shows "trace w' = trace w @ events_since w w'
       \<and> (\<forall>p. r = Some p \<longrightarrow> p \<in> set (defaultSocketPaths h) \<and> validated p (events_since w w'))
       \<and> (list_all (\<lambda>p. \<not> validated p (events_since w w')) (defaultSocketPaths h) \<longrightarrow> r = None)"
proof -
  from assms first_accessible_validated [of h "defaultSocketPaths h" w r w']
  obtain evs where e: "trace w' = trace w @ evs"
    "\<forall>p. r = Some p \<longrightarrow> p \<in> set (defaultSocketPaths h) \<and> validated p evs"
    unfolding getDockerSocketPath_def by blast
  from e(1) have s: "events_since w w' = evs"
    by (simp add: events_since_def)
  have "list_all (\<lambda>p. \<not> validated p evs) (defaultSocketPaths h) \<longrightarrow> r = None"
  proof
    assume n: "list_all (\<lambda>p. \<not> validated p evs) (defaultSocketPaths h)"
    show "r = None"
    proof (cases r)
      case None
      then show ?thesis .
    next
      case (Some p)
      with e(2) have "p \<in> set (defaultSocketPaths h)" "validated p evs" by simp_all
      with n show ?thesis by (simp add: list_all_iff)
    qed
  qed
  with e show ?thesis unfolding s by simp
qed


theorem getDockerSocketPath_validated_witness:
  "fst (getDockerSocketPath docker_host empty_world) = Some ''/run/docker.sock''
   \<and> ''/run/docker.sock'' \<in> set (defaultSocketPaths docker_host)
   \<and> validated ''/run/docker.sock''
        (events_since empty_world (snd (getDockerSocketPath docker_host empty_world)))
   \<and> list_all (\<lambda>p. \<not> validated p
          (events_since empty_world (snd (getDockerSocketPath bare_host empty_world))))
        (defaultSocketPaths bare_host)
   \<and> fst (getDockerSocketPath bare_host empty_world) = None"
proof -
  have a: "fst (getDockerSocketPath docker_host empty_world) = Some ''/run/docker.sock''"
    by code_simp
  have b: "list_all (\<lambda>p. \<not> validated p
          (events_since empty_world (snd (getDockerSocketPath bare_host empty_world))))
        (defaultSocketPaths bare_host)"
    by code_simp
  from getDockerSocketPath_validated [OF prod.collapse [symmetric], of docker_host empty_world] a
  have "''/run/docker.sock'' \<in> set (defaultSocketPaths docker_host)
      \<and> validated ''/run/docker.sock''
        (events_since empty_world (snd (getDockerSocketPath docker_host empty_world)))"
    by simp
  moreover
  from getDockerSocketPath_validated [OF prod.collapse [symmetric], of bare_host empty_world] b
  have "fst (getDockerSocketPath bare_host empty_world) = None"
    by blast
  ultimately show ?thesis using a b by (intro conjI) simp_all
qed

section \<open>Loading the configuration\<close>

text \<open>
  C4. The loader tells three cases apart: with no file at the configuration path it
  returns "no configuration" and raises nothing; a file that is not JSON raises an error
  whose message names the path; a file whose JSON value is not a plain object (an array,
  a scalar, null) raises the error "Configuration file must contain a JSON object".
\<close>

theorem getConfig_three_cases:
  "(\<not> existsSync w (configPath h) \<longrightarrow> getConfig h w = Inr None)
   \<and> (files w (configPath h) = Some (File c) \<and> JSON_parse h c = None \<longrightarrow>
        getConfig h w = Inl (Error (''Invalid JSON in configuration file: '' @ configPath h)))
   \<and> (files w (configPath h) = Some (File c) \<and> JSON_parse h c = Some v \<and> (\<forall>kvs. v \<noteq> JObj kvs) \<longrightarrow>
        getConfig h w = Inl (Error ''Configuration file must contain a JSON object''))"
proof (intro conjI impI)
  assume "\<not> existsSync w (configPath h)"
  then show "getConfig h w = Inr None"
    by (simp add: getConfig_def)
next
  assume "files w (configPath h) = Some (File c) \<and> JSON_parse h c = None"
  then show "getConfig h w = Inl (Error (''Invalid JSON in configuration file: '' @ configPath h))"
    by (simp add: getConfig_def existsSync_def readFileSync_def)
next
  assume a: "files w (configPath h) = Some (File c) \<and> JSON_parse h c = Some v \<and> (\<forall>kvs. v \<noteq> JObj kvs)"
  then have "typeof v \<noteq> ''object'' \<or> v = JNull \<or> isArray v"
    by (cases v) simp_all
  with a show "getConfig h w = Inl (Error ''Configuration file must contain a JSON object'')"
    by (simp add: getConfig_def existsSync_def readFileSync_def)
qed

theorem getConfig_three_cases_witness:
  "(\<not> existsSync empty_world (configPath bare_host) \<and> getConfig bare_host empty_world = Inr None)
   \<and> (files (conf_world ''{broken'') (configPath bare_host) = Some (File ''{broken'')
        \<and> JSON_parse bare_host ''{broken'' = None
        \<and> getConfig bare_host (conf_world ''{broken'')
            = Inl (Error ''Invalid JSON in configuration file: /home/dev/.dexilion.cde.conf''))
   \<and> (files (conf_world ''[]'') (configPath bare_host) = Some (File ''[]'')
        \<and> JSON_parse bare_host ''[]'' = Some (JArr []) \<and> (\<forall>kvs. JArr [] \<noteq> JObj kvs)
        \<and> getConfig bare_host (conf_world ''[]'')
            = Inl (Error ''Configuration file must contain a JSON object''))"
proof -
  have p: "configPath bare_host = ''/home/dev/.dexilion.cde.conf''"
    by code_simp
  have a: "\<not> existsSync empty_world (configPath bare_host)"
    by code_simp
  have b: "files (conf_world ''{broken'') (configPath bare_host) = Some (File ''{broken'')
        \<and> JSON_parse bare_host ''{broken'' = None"
    unfolding p by code_simp
  have "files (conf_world ''[]'') (configPath bare_host) = Some (File ''[]'')
        \<and> JSON_parse bare_host ''[]'' = Some (JArr [])"
    unfolding p by code_simp
  then have c: "files (conf_world ''[]'') (configPath bare_host) = Some (File ''[]'')
        \<and> JSON_parse bare_host ''[]'' = Some (JArr []) \<and> (\<forall>kvs. JArr [] \<noteq> JObj kvs)"
    by simp
  from a b c
    getConfig_three_cases [of empty_world bare_host]
    getConfig_three_cases [of "conf_world ''{broken''" bare_host "''{broken''"]
    getConfig_three_cases [of "conf_world ''[]''" bare_host "''[]''" "JArr []"]
  show ?thesis by (simp add: p)
qed

section \<open>The candidate sockets\<close>

text \<open>
  C6, as the specification states it: the candidates are, in order, the standard path, the
  path with the user's numeric ID, the desktop path under the home directory, the
  package-manager path and, on POSIX only, the podman socket. On a Linux host the list
  of the program is another one: its second entry is \<open>/run/docker.sock\<close>, which the
  specification does not list, and the path with the user ID comes fifth.
\<close>

theorem defaultSocketPaths_counterexample:
  "defaultSocketPaths bare_host \<noteq> claimed_CandidateList bare_host
   \<and> defaultSocketPaths bare_host ! 1 = ''/run/docker.sock''
   \<and> defaultSocketPaths bare_host ! 4 = ''/run/user/1000/docker.sock''
   \<and> length (defaultSocketPaths bare_host) = 6"
  by code_simp

text \<open>
  C6, amended. The candidates are, in order: \<open>/var/run/docker.sock\<close>,
  \<open>/run/docker.sock\<close>, the desktop path under the home directory, the package-manager
  path and, unless the platform is Windows, the docker socket and then the podman socket
  under the run-time directory of the user's numeric ID. On Windows (platforms
  \<open>win32\<close> and \<open>cygwin\<close>) the list is the first four.
\<close>

theorem defaultSocketPaths_order:
  "(getOS h \<noteq> ''windows'' \<longrightarrow>
      defaultSocketPaths h =
        [''/var/run/docker.sock'',
         ''/run/docker.sock'',
         path_join h [homedir h, ''.docker/desktop/docker.sock''],
         ''/usr/local/var/run/docker.sock'',
         ''/run/user/'' @ show_nat (getuid h) @ ''/docker.sock'',
         ''/run/user/'' @ show_nat (getuid h) @ ''/podman/podman.sock''])
   \<and> (platform h = ''win32'' \<or> platform h = ''cygwin'' \<longrightarrow>
        defaultSocketPaths h =
          [''/var/run/docker.sock'',
           ''/run/docker.sock'',
           path_join h [homedir h, ''.docker/desktop/docker.sock''],
           ''/usr/local/var/run/docker.sock''])"
  by (auto simp: defaultSocketPaths_def getOS_def)

theorem defaultSocketPaths_order_witness:
  "(getOS bare_host \<noteq> ''windows'' \<and>
      defaultSocketPaths bare_host =
        [''/var/run/docker.sock'', ''/run/docker.sock'', ''/home/dev/.docker/desktop/docker.sock'',
         ''/usr/local/var/run/docker.sock'', ''/run/user/1000/docker.sock'',
         ''/run/user/1000/podman/podman.sock''])
   \<and> ((platform windows_host = ''win32'' \<or> platform windows_host = ''cygwin'') \<and>
        defaultSocketPaths windows_host =
          [''/var/run/docker.sock'', ''/run/docker.sock'', ''/home/dev/.docker/desktop/docker.sock'',
           ''/usr/local/var/run/docker.sock''])"
proof -
  have a: "getOS bare_host \<noteq> ''windows''"
    by code_simp
  have b: "platform windows_host = ''win32'' \<or> platform windows_host = ''cygwin''"
    by code_simp
  have n: "show_nat (getuid bare_host) = ''1000''"
    by code_simp
  have j: "path_join bare_host [homedir bare_host, ''.docker/desktop/docker.sock'']
             = ''/home/dev/.docker/desktop/docker.sock''"
    by code_simp
  have k: "path_join windows_host [homedir windows_host, ''.docker/desktop/docker.sock'']
             = ''/home/dev/.docker/desktop/docker.sock''"
    by code_simp
  from a defaultSocketPaths_order [of bare_host]
  have "defaultSocketPaths bare_host =
        [''/var/run/docker.sock'', ''/run/docker.sock'', ''/home/dev/.docker/desktop/docker.sock'',
         ''/usr/local/var/run/docker.sock'', ''/run/user/1000/docker.sock'',
         ''/run/user/1000/podman/podman.sock'']"
    unfolding n j by simp
  moreover from b defaultSocketPaths_order [of windows_host]
  have "defaultSocketPaths windows_host =
          [''/var/run/docker.sock'', ''/run/docker.sock'', ''/home/dev/.docker/desktop/docker.sock'',
           ''/usr/local/var/run/docker.sock'']"
    unfolding k by blast
  ultimately show ?thesis using a b by blast
qed

section \<open>The interface scan\<close>

lemma find_eligible_None: "find eligible net = None \<longleftrightarrow> \<not> list_ex eligible net"
  by (auto simp: find_None_iff list_ex_iff)

lemma scan_interfaces_Some:
  "scan_interfaces sel nets = Some a \<Longrightarrow>
     \<exists>name net addr. (name, net) \<in> set nets \<and> sel name \<and> find eligible net = Some addr
        \<and> a = address addr"
proof (induction nets)
  case Nil
  then show ?case by simp
next
  case (Cons iface rest)
  obtain name net where i: "iface = (name, net)" by (cases iface)
  show ?case
  proof (cases "sel name \<and> find eligible net \<noteq> None")
    case True
    then obtain addr where "find eligible net = Some addr" by blast
    with True Cons.prems i show ?thesis by auto
  next
    case False
    with Cons.prems i have "scan_interfaces sel rest = Some a"
      by (auto split: if_splits option.splits)
    from Cons.IH [OF this] show ?thesis by auto
  qed
qed

lemma scan_interfaces_None:
  "scan_interfaces sel nets = None \<longleftrightarrow> (\<forall>iface \<in> set nets. sel (fst iface) \<longrightarrow> \<not> has_eligible iface)"
proof (induction nets)
  case Nil
  show ?case by simp
next
  case (Cons iface rest)
  obtain name net where i: "iface = (name, net)" by (cases iface)
  show ?case
  proof (cases "sel name \<and> list_ex eligible net")
    case True
    with find_eligible_None [of net] obtain addr where "find eligible net = Some addr"
      by (cases "find eligible net") auto
    with True i show ?thesis by (simp add: has_eligible_def)
  next
    case False
    with find_eligible_None [of net] i
    have "scan_interfaces sel (iface # rest) = scan_interfaces sel rest"
      by (cases "sel name") simp_all
    with Cons.IH False i show ?thesis by (auto simp: has_eligible_def)
  qed
qed

lemma first_pass_Some:
  "first_pass ps nets = Some a \<Longrightarrow>
     \<exists>p name net addr. p \<in> set ps \<and> (name, net) \<in> set nets \<and> startsWith (toLowerCase name) p
        \<and> find eligible net = Some addr \<and> a = address addr"
proof (induction ps)
  case Nil
  then show ?case by simp
next
  case (Cons p ps)
  show ?case
  proof (cases "scan_interfaces (\<lambda>name. startsWith (toLowerCase name) p) nets")
    case None
    with Cons.prems have "first_pass ps nets = Some a" by simp
    from Cons.IH [OF this] show ?thesis by auto
  next
    case (Some b)
    with Cons.prems have "b = a" by simp
    with Some scan_interfaces_Some [of "\<lambda>name. startsWith (toLowerCase name) p" nets a]
    show ?thesis by auto
  qed
qed

lemma first_pass_None:
  "first_pass ps nets = None \<longleftrightarrow>
     (\<forall>iface \<in> set nets. (\<exists>p \<in> set ps. startsWith (toLowerCase (fst iface)) p) \<longrightarrow> \<not> has_eligible iface)"
proof (induction ps)
  case Nil
  show ?case by simp
next
  case (Cons p ps)
  show ?case
  proof (cases "scan_interfaces (\<lambda>name. startsWith (toLowerCase name) p) nets")
    case None
    then have "first_pass (p # ps) nets = first_pass ps nets" by simp
    moreover from None
    have "\<forall>iface \<in> set nets. startsWith (toLowerCase (fst iface)) p \<longrightarrow> \<not> has_eligible iface"
      by (simp add: scan_interfaces_None)
    ultimately show ?thesis using Cons.IH by auto
  next
    case (Some a)
    then have "\<not> (\<forall>iface \<in> set nets. startsWith (toLowerCase (fst iface)) p \<longrightarrow> \<not> has_eligible iface)"
      using scan_interfaces_None [of "\<lambda>name. startsWith (toLowerCase name) p" nets] by simp
    with Some show ?thesis by auto
  qed
qed

lemma second_pass_first:
  "second_pass nets = (case eligible_addresses nets of [] \<Rightarrow> None | a # _ \<Rightarrow> Some a)"
proof (induction nets)
  case Nil
  show ?case by (simp add: second_pass_def eligible_addresses_def)
next
  case (Cons iface rest)
  obtain name net where i: "iface = (name, net)" by (cases iface)
  show ?case
  proof (cases "find eligible net")
    case None
    then have "filter eligible net = []"
      by (simp add: find_None_iff filter_empty_conv)
    with None Cons.IH i show ?thesis
      by (simp add: second_pass_def eligible_addresses_def)
  next
    case (Some addr)
    then obtain more where "filter eligible net = addr # more"
      by (induction net) (auto split: if_splits)
    with Some i show ?thesis
      by (simp add: second_pass_def eligible_addresses_def)
  qed
qed

text \<open>
  C8. When some interface whose lower-cased name starts with one of the prefixes eth, en,
  wlan, wifi, ethernet carries a non-internal IPv4 address, discovery returns the first
  such address of one of those interfaces, wherever other interfaces stand in the
  enumeration. When no such interface carries one, it returns the first non-internal
  IPv4 address over all interfaces in enumeration order. Neither case runs a subprocess.
\<close>

theorem getExternalIP_two_pass:
  assumes "networkInterfaces h = Inr nets"
  shows "(list_ex (\<lambda>iface. priority_named (fst iface) \<and> has_eligible iface) nets \<longrightarrow>
           (\<exists>name net addr. (name, net) \<in> set nets \<and> priority_named name
              \<and> find eligible net = Some addr \<and> eligible addr
              \<and> getExternalIP h w = (Some (address addr), w)))
       \<and> (\<not> list_ex (\<lambda>iface. priority_named (fst iface) \<and> has_eligible iface) nets
            \<and> eligible_addresses nets \<noteq> [] \<longrightarrow>
           getExternalIP h w = (Some (hd (eligible_addresses nets)), w))"
proof (intro conjI impI)
  assume "list_ex (\<lambda>iface. priority_named (fst iface) \<and> has_eligible iface) nets"
  then have "first_pass interfacePriority nets \<noteq> None"
    by (auto simp: first_pass_None list_ex_iff priority_named_def)
  then obtain a where a: "first_pass interfacePriority nets = Some a" by blast
  from first_pass_Some [OF a] obtain p name net addr where
    f: "p \<in> set interfacePriority" "(name, net) \<in> set nets" "startsWith (toLowerCase name) p"
       "find eligible net = Some addr" "a = address addr"
    by blast
  from f(1,3) have "priority_named name"
    by (auto simp: priority_named_def list_ex_iff)
  moreover from f(4) have "eligible addr"
    by (auto simp: find_Some_iff)
  moreover from a f(5) assms have "getExternalIP h w = (Some (address addr), w)"
    by (simp add: getExternalIP_def)
  ultimately show "\<exists>name net addr. (name, net) \<in> set nets \<and> priority_named name
              \<and> find eligible net = Some addr \<and> eligible addr
              \<and> getExternalIP h w = (Some (address addr), w)"
    using f(2,4) by blast
next
  assume n: "\<not> list_ex (\<lambda>iface. priority_named (fst iface) \<and> has_eligible iface) nets
            \<and> eligible_addresses nets \<noteq> []"
  then have "first_pass interfacePriority nets = None"
    by (auto simp: first_pass_None list_ex_iff priority_named_def)
  moreover from n obtain a more where e: "eligible_addresses nets = a # more"
    by (cases "eligible_addresses nets") auto
  then have "second_pass nets = Some a"
    by (simp add: second_pass_first)
  ultimately show "getExternalIP h w = (Some (hd (eligible_addresses nets)), w)"
    using assms e by (simp add: getExternalIP_def)
qed

theorem getExternalIP_two_pass_witness:
  "(networkInterfaces laptop_host = Inr laptop_nets
    \<and> list_ex (\<lambda>iface. priority_named (fst iface) \<and> has_eligible iface) laptop_nets
    \<and> (\<exists>name net addr. (name, net) \<in> set laptop_nets \<and> priority_named name
          \<and> find eligible net = Some addr \<and> eligible addr
          \<and> getExternalIP laptop_host empty_world = (Some (address addr), empty_world))
    \<and> fst (getExternalIP laptop_host empty_world) = Some ''192.168.1.42'')
   \<and> (networkInterfaces tunnel_host = Inr virtual_nets
      \<and> \<not> list_ex (\<lambda>iface. priority_named (fst iface) \<and> has_eligible iface) virtual_nets
      \<and> eligible_addresses virtual_nets \<noteq> []
      \<and> getExternalIP tunnel_host empty_world = (Some ''172.17.0.1'', empty_world))"
proof -
  have a: "networkInterfaces laptop_host = Inr laptop_nets"
    by (simp add: laptop_host_def sample_host_def)
  have b: "list_ex (\<lambda>iface. priority_named (fst iface) \<and> has_eligible iface) laptop_nets"
    by code_simp
  have c: "fst (getExternalIP laptop_host empty_world) = Some ''192.168.1.42''"
    by code_simp
  have d: "networkInterfaces tunnel_host = Inr virtual_nets"
    by (simp add: tunnel_host_def sample_host_def)
  have e: "\<not> list_ex (\<lambda>iface. priority_named (fst iface) \<and> has_eligible iface) virtual_nets"
    by code_simp
  have f: "eligible_addresses virtual_nets \<noteq> []"
    by code_simp
  have g: "hd (eligible_addresses virtual_nets) = ''172.17.0.1''"
    by code_simp
  from getExternalIP_two_pass [OF a, of empty_world] b
  have "\<exists>name net addr. (name, net) \<in> set laptop_nets \<and> priority_named name
          \<and> find eligible net = Some addr \<and> eligible addr
          \<and> getExternalIP laptop_host empty_world = (Some (address addr), empty_world)"
    by blast
  moreover from getExternalIP_two_pass [OF d, of empty_world] e f g
  have "getExternalIP tunnel_host empty_world = (Some ''172.17.0.1'', empty_world)"
    by simp
  ultimately show ?thesis using a b c d e f by blast
qed


section \<open>The matcher and the language of a pattern\<close>

lemma many_iff: "t \<in> set (many p s) \<longleftrightarrow> (\<exists>u. s = u @ t \<and> (\<forall>x \<in> set u. p x))"
proof (induction s)
  case Nil
  show ?case by auto
next
  case (Cons x xs)
  show ?case
  proof (cases "p x")
    case True
    have "(\<exists>u. x # xs = u @ t \<and> (\<forall>y \<in> set u. p y))
            \<longleftrightarrow> t = x # xs \<or> (\<exists>u. xs = u @ t \<and> (\<forall>y \<in> set u. p y))"
      using True by (auto simp: Cons_eq_append_conv)
    with True Cons.IH show ?thesis by auto
  next
    case False
    have "(\<exists>u. x # xs = u @ t \<and> (\<forall>y \<in> set u. p y)) \<longleftrightarrow> t = x # xs"
      using False by (auto simp: Cons_eq_append_conv)
    with False show ?thesis by auto
  qed
qed

lemma ms_lang:
  "eolfree r \<Longrightarrow> (\<exists>g'. (t, g') \<in> set (ms r (s, g))) \<longleftrightarrow> (\<exists>u \<in> lang r. s = u @ t)"
proof (induction r arbitrary: s g t)
  case (Sym p)
  show ?case by (cases s) auto
next
  case (Seq a b)
  from Seq.prems have ea: "eolfree a" and eb: "eolfree b" by simp_all
  have "(\<exists>g'. (t, g') \<in> set (ms (Seq a b) (s, g)))
          \<longleftrightarrow> (\<exists>t1 g1. (t1, g1) \<in> set (ms a (s, g)) \<and> (\<exists>g'. (t, g') \<in> set (ms b (t1, g1))))"
    by auto
  also have "\<dots> \<longleftrightarrow> (\<exists>t1 g1. (t1, g1) \<in> set (ms a (s, g)) \<and> (\<exists>v \<in> lang b. t1 = v @ t))"
    using Seq.IH(2) [OF eb] by simp
  also have "\<dots> \<longleftrightarrow> (\<exists>t1. (\<exists>g1. (t1, g1) \<in> set (ms a (s, g))) \<and> (\<exists>v \<in> lang b. t1 = v @ t))"
    by blast
  also have "\<dots> \<longleftrightarrow> (\<exists>t1. (\<exists>u \<in> lang a. s = u @ t1) \<and> (\<exists>v \<in> lang b. t1 = v @ t))"
    using Seq.IH(1) [OF ea] by simp
  also have "\<dots> \<longleftrightarrow> (\<exists>w \<in> lang (Seq a b). s = w @ t)"
    by auto blast+
  finally show ?case .
next
  case (Alt a b)
  from Alt.prems have ea: "eolfree a" and eb: "eolfree b" by simp_all
  have "(\<exists>g'. (t, g') \<in> set (ms (Alt a b) (s, g)))
          \<longleftrightarrow> (\<exists>g'. (t, g') \<in> set (ms a (s, g))) \<or> (\<exists>g'. (t, g') \<in> set (ms b (s, g)))"
    by auto
  then show ?case
    using Alt.IH(1) [OF ea, of t s g] Alt.IH(2) [OF eb, of t s g] by auto
next
  case (Opt a)
  from Opt.prems have ea: "eolfree a" by simp
  have "(\<exists>g'. (t, g') \<in> set (ms (Opt a) (s, g)))
          \<longleftrightarrow> (\<exists>g'. (t, g') \<in> set (ms a (s, g))) \<or> t = s"
    by auto
  then show ?case
    using Opt.IH [OF ea, of t s g] by auto
next
  case (Many p)
  have "(\<exists>g'. (t, g') \<in> set (ms (Many p) (s, g))) \<longleftrightarrow> t \<in> set (many p s)"
    by auto
  then show ?case by (simp add: many_iff) blast
next
  case (Cap a)
  from Cap.prems have ea: "eolfree a" by simp
  have "(\<exists>g'. (t, g') \<in> set (ms (Cap a) (s, g))) \<longleftrightarrow> (\<exists>g'. (t, g') \<in> set (ms a (s, g)))"
    by force
  then show ?case
    using Cap.IH [OF ea, of t s g] by simp
next
  case Eol
  then show ?case by simp
qed

lemma ms_Eol: "ms Eol m = (if fst m = [] then [m] else [])"
  by (cases m) simp

lemma ms_then_Eol:
  assumes "eolfree r"
  shows "ms (Seq r Eol) (s, g) \<noteq> [] \<longleftrightarrow> s \<in> lang r"
proof -
  have "ms (Seq r Eol) (s, g) \<noteq> [] \<longleftrightarrow> (\<exists>m \<in> set (ms r (s, g)). ms Eol m \<noteq> [])"
    by simp
  also have "\<dots> \<longleftrightarrow> (\<exists>m \<in> set (ms r (s, g)). fst m = [])"
    by (simp add: ms_Eol)
  also have "\<dots> \<longleftrightarrow> (\<exists>g'. ([], g') \<in> set (ms r (s, g)))"
    by force
  also have "\<dots> \<longleftrightarrow> s \<in> lang r"
    using ms_lang [OF assms, of "[]" s g] by simp
  finally show ?thesis .
qed

lemma ms_Seq_nonempty:
  "ms (Seq a b) (s, g) \<noteq> [] \<longleftrightarrow> (\<exists>t g1. (t, g1) \<in> set (ms a (s, g)) \<and> ms b (t, g1) \<noteq> [])"
  by auto

section \<open>The address format\<close>


lemma ord_eq_iff: "ord a = ord b \<longleftrightarrow> a = b"
  by (simp add: ord_def)

lemma ord_digits:
  "ord CHR ''0'' = 48" "ord CHR ''1'' = 49" "ord CHR ''2'' = 50" "ord CHR ''4'' = 52"
  "ord CHR ''5'' = 53" "ord CHR ''9'' = 57" "ord CHR ''.'' = 46"
  by (simp_all add: ord_def)

lemma lang_Sym: "u \<in> lang (Sym p) \<longleftrightarrow> (\<exists>x. u = [x] \<and> p x)"
  by auto

lemma lang_Seq: "u \<in> lang (Seq a b) \<longleftrightarrow> (\<exists>v w. u = v @ w \<and> v \<in> lang a \<and> w \<in> lang b)"
  by auto

lemma lang_Seq_Sym: "u \<in> lang (Seq (Sym p) b) \<longleftrightarrow> (\<exists>x v. u = x # v \<and> p x \<and> v \<in> lang b)"
proof
  assume "u \<in> lang (Seq (Sym p) b)"
  then obtain a v where "u = a @ v" "a \<in> lang (Sym p)" "v \<in> lang b"
    unfolding lang_Seq by blast
  then show "\<exists>x v. u = x # v \<and> p x \<and> v \<in> lang b"
    by (auto simp: lang_Sym)
next
  assume "\<exists>x v. u = x # v \<and> p x \<and> v \<in> lang b"
  then obtain x v where "u = [x] @ v" "p x" "v \<in> lang b" by auto
  moreover from this have "[x] \<in> lang (Sym p)" by (simp add: lang_Sym)
  ultimately show "u \<in> lang (Seq (Sym p) b)"
    unfolding lang_Seq by blast
qed

lemma lang_Seq_Opt: "u \<in> lang (Seq (Opt a) b) \<longleftrightarrow> u \<in> lang b \<or> u \<in> lang (Seq a b)"
proof -
  have "u \<in> lang (Seq (Opt a) b) \<longleftrightarrow> (\<exists>v w. u = v @ w \<and> (v = [] \<or> v \<in> lang a) \<and> w \<in> lang b)"
    unfolding lang_Seq by simp
  also have "\<dots> \<longleftrightarrow> u \<in> lang b \<or> (\<exists>v w. u = v @ w \<and> v \<in> lang a \<and> w \<in> lang b)"
    by (metis append_Nil)
  finally show ?thesis unfolding lang_Seq .
qed

lemma lang_Opt: "u \<in> lang (Opt a) \<longleftrightarrow> u = [] \<or> u \<in> lang a"
  by auto

lemma lang_Alt: "u \<in> lang (Alt a b) \<longleftrightarrow> u \<in> lang a \<or> u \<in> lang b"
  by simp

lemmas lang_unfold = lang_Alt lang_Seq_Opt lang_Seq_Sym lang_Opt lang_Sym

lemma lang_octet_1: "[a] \<in> lang octet_rx \<longleftrightarrow> is_digit a"
  unfolding octet_rx_def lit_def
  by (simp add: lang_unfold del: lang.simps)

lemma lang_octet_2: "[a, b] \<in> lang octet_rx \<longleftrightarrow> is_digit a \<and> is_digit b"
  unfolding octet_rx_def lit_def
  by (auto simp add: lang_unfold is_digit_def in_range_def ord_digits simp del: lang.simps)

lemma lang_octet_3:
  "[a, b, c] \<in> lang octet_rx \<longleftrightarrow>
     (a = CHR ''2'' \<and> b = CHR ''5'' \<and> in_range CHR ''0'' CHR ''5'' c)
     \<or> (a = CHR ''2'' \<and> in_range CHR ''0'' CHR ''4'' b \<and> is_digit c)
     \<or> (in_range CHR ''0'' CHR ''1'' a \<and> is_digit b \<and> is_digit c)"
  unfolding octet_rx_def lit_def
  by (simp add: lang_unfold del: lang.simps)

lemma lang_octet_length: "u \<in> lang octet_rx \<Longrightarrow> u \<noteq> [] \<and> length u \<le> 3"
  unfolding octet_rx_def lit_def
  by (auto simp add: lang_unfold simp del: lang.simps)


lemma three_digits_arith:
  fixes x y z :: nat
  assumes "x \<le> 9" "y \<le> 9" "z \<le> 9"
  shows "10 * (10 * x + y) + z \<le> 255 \<longleftrightarrow> (x = 2 \<and> y = 5 \<and> z \<le> 5) \<or> (x = 2 \<and> y \<le> 4) \<or> x \<le> 1"
proof -
  consider "x \<le> 1" | "x = 2" | "3 \<le> x" by arith
  then show ?thesis
  proof cases
    case 1
    with assms have "10 * (10 * x + y) + z \<le> 255" by arith
    with 1 show ?thesis by simp
  next
    case 2
    consider "y \<le> 4" | "y = 5" | "6 \<le> y" by arith
    then show ?thesis
    proof cases
      case 1
      with assms 2 have "10 * (10 * x + y) + z \<le> 255" by arith
      with 1 2 show ?thesis by simp
    next
      case 2
      with \<open>x = 2\<close> show ?thesis by simp
    next
      case 3
      with \<open>x = 2\<close> have "\<not> 10 * (10 * x + y) + z \<le> 255" by arith
      with 3 \<open>x = 2\<close> show ?thesis by simp
    qed
  next
    case 3
    then have "\<not> 10 * (10 * x + y) + z \<le> 255" by arith
    with 3 show ?thesis by simp
  qed
qed


lemma dec_value_simps:
  "dec_value [a] = ord a - 48"
  "dec_value [a, b] = 10 * (ord a - 48) + (ord b - 48)"
  "dec_value [a, b, c] = 10 * (10 * (ord a - 48) + (ord b - 48)) + (ord c - 48)"
  by (simp_all add: dec_value_def)

lemma short_shapes:
  "u \<noteq> [] \<Longrightarrow> length u \<le> 3 \<Longrightarrow>
     (\<exists>a. u = [a]) \<or> (\<exists>a b. u = [a, b]) \<or> (\<exists>a b c. u = [a, b, c])"
  apply (cases u, simp)
  apply (rename_tac a u1)
  apply (case_tac u1, simp)
  apply (rename_tac b u2)
  apply (case_tac u2, simp)
  apply simp
  done

lemma digit_offset: "is_digit a \<Longrightarrow> \<exists>x. x \<le> 9 \<and> ord a = 48 + x"
  unfolding is_digit_def by (rule exI [of _ "ord a - 48"]) arith

lemma three_digits:
  assumes "is_digit a" "is_digit b" "is_digit c"
  shows "dec_value [a, b, c] \<le> 255 \<longleftrightarrow>
     (a = CHR ''2'' \<and> b = CHR ''5'' \<and> in_range CHR ''0'' CHR ''5'' c)
     \<or> (a = CHR ''2'' \<and> in_range CHR ''0'' CHR ''4'' b)
     \<or> in_range CHR ''0'' CHR ''1'' a"
proof -
  from digit_offset [OF assms(1)] obtain x where x: "x \<le> 9" "ord a = 48 + x" by blast
  from digit_offset [OF assms(2)] obtain y where y: "y \<le> 9" "ord b = 48 + y" by blast
  from digit_offset [OF assms(3)] obtain z where z: "z \<le> 9" "ord c = 48 + z" by blast
  have a2: "a = CHR ''2'' \<longleftrightarrow> x = 2"
    using ord_eq_iff [of a "CHR ''2''"] x by (simp add: ord_digits)
  have b5: "b = CHR ''5'' \<longleftrightarrow> y = 5"
    using ord_eq_iff [of b "CHR ''5''"] y by (simp add: ord_digits)
  have c5: "in_range CHR ''0'' CHR ''5'' c \<longleftrightarrow> z \<le> 5"
    using z by (simp add: in_range_def ord_digits)
  have b4: "in_range CHR ''0'' CHR ''4'' b \<longleftrightarrow> y \<le> 4"
    using y by (simp add: in_range_def ord_digits)
  have a1: "in_range CHR ''0'' CHR ''1'' a \<longleftrightarrow> x \<le> 1"
    using x by (simp add: in_range_def ord_digits)
  have "dec_value [a, b, c] = 10 * (10 * x + y) + z"
    using x y z by (simp add: dec_value_simps)
  with three_digits_arith [OF x(1) y(1) z(1)] show ?thesis
    unfolding a2 b5 c5 b4 a1 by simp
qed

lemma is_octet_1: "is_octet [a] \<longleftrightarrow> is_digit a"
  unfolding is_octet_def dec_value_simps is_digit_def by (simp, arith)

lemma is_octet_2: "is_octet [a, b] \<longleftrightarrow> is_digit a \<and> is_digit b"
  unfolding is_octet_def dec_value_simps is_digit_def by (simp, arith)

lemma is_octet_3:
  "is_octet [a, b, c] \<longleftrightarrow> is_digit a \<and> is_digit b \<and> is_digit c \<and> dec_value [a, b, c] \<le> 255"
  unfolding is_octet_def by simp

lemma range_digit:
  "in_range CHR ''0'' CHR ''5'' c \<Longrightarrow> is_digit c"
  "in_range CHR ''0'' CHR ''4'' c \<Longrightarrow> is_digit c"
  "in_range CHR ''0'' CHR ''1'' c \<Longrightarrow> is_digit c"
  "is_digit CHR ''2''" "is_digit CHR ''5''"
  by (simp_all add: in_range_def is_digit_def ord_digits)

lemma is_octet_lang: "is_octet u \<longleftrightarrow> u \<in> lang octet_rx"
proof (cases "u \<noteq> [] \<and> length u \<le> 3")
  case False
  then have "\<not> is_octet u" by (auto simp: is_octet_def)
  moreover from False lang_octet_length [of u] have "u \<notin> lang octet_rx" by blast
  ultimately show ?thesis by simp
next
  case True
  with short_shapes [of u]
  consider a where "u = [a]" | a b where "u = [a, b]" | a b c where "u = [a, b, c]"
    by blast
  then show ?thesis
  proof cases
    case 1
    then show ?thesis by (simp only: lang_octet_1 is_octet_1)
  next
    case 2
    then show ?thesis by (simp only: lang_octet_2 is_octet_2)
  next
    case 3
    show ?thesis
    proof (cases "is_digit a \<and> is_digit b \<and> is_digit c")
      case True
      then have "dec_value [a, b, c] \<le> 255 \<longleftrightarrow> [a, b, c] \<in> lang octet_rx"
        using three_digits [of a b c] by (simp only: lang_octet_3) blast
      with True 3 show ?thesis by (simp only: is_octet_3) blast
    next
      case False
      then have "[a, b, c] \<notin> lang octet_rx"
        unfolding lang_octet_3 using range_digit by blast
      with False 3 show ?thesis by (simp only: is_octet_3) blast
    qed
  qed
qed


lemma split_dots_nonempty: "split_dots s \<noteq> []"
  by (induction s) (auto split: list.splits)

lemma split_dots_prefix:
  "CHR ''.'' \<notin> set a \<Longrightarrow> split_dots (a @ s) = (a @ hd (split_dots s)) # tl (split_dots s)"
proof (induction a)
  case Nil
  show ?case using split_dots_nonempty [of s] by simp
next
  case (Cons x xs)
  then have "x \<noteq> CHR ''.''" by auto
  with Cons show ?case by simp
qed

lemma split_dots_field:
  "CHR ''.'' \<notin> set a \<Longrightarrow> split_dots (a @ CHR ''.'' # rest) = a # split_dots rest"
  by (simp add: split_dots_prefix)

lemma split_dots_last: "CHR ''.'' \<notin> set a \<Longrightarrow> split_dots a = [a]"
  using split_dots_prefix [of a "[]"] by simp

lemma split_dots_cases:
  "split_dots s = f # fs \<Longrightarrow>
     (fs = [] \<and> s = f) \<or> (\<exists>rest. s = f @ CHR ''.'' # rest \<and> split_dots rest = fs)"
proof (induction s arbitrary: f fs)
  case Nil
  then show ?case by simp
next
  case (Cons c cs)
  show ?case
  proof (cases "c = CHR ''.''")
    case True
    with Cons.prems show ?thesis by auto
  next
    case False
    obtain t ts where t: "split_dots cs = t # ts"
      using split_dots_nonempty [of cs] by (cases "split_dots cs") auto
    with False Cons.prems have f: "f = c # t" "fs = ts" by simp_all
    from Cons.IH [OF t] f show ?thesis by auto
  qed
qed

lemma octet_no_dot: "is_octet a \<Longrightarrow> CHR ''.'' \<notin> set a"
  by (auto simp: is_octet_def list_all_iff is_digit_def ord_digits)

lemma octet_fields_one: "octet_fields (Suc 0) s \<longleftrightarrow> is_octet s"
proof
  assume "octet_fields (Suc 0) s"
  then obtain f where f: "split_dots s = [f]" "is_octet f"
    unfolding octet_fields_def by (cases "split_dots s") auto
  from split_dots_cases [OF f(1)] split_dots_nonempty have "s = f" by auto
  with f show "is_octet s" by simp
next
  assume "is_octet s"
  then show "octet_fields (Suc 0) s"
    by (simp add: octet_fields_def split_dots_last octet_no_dot)
qed

lemma octet_fields_more:
  "octet_fields (Suc (Suc n)) s \<longleftrightarrow>
     (\<exists>a t. is_octet a \<and> s = a @ CHR ''.'' # t \<and> octet_fields (Suc n) t)"
proof
  assume "octet_fields (Suc (Suc n)) s"
  then obtain f fs where f: "split_dots s = f # fs" "is_octet f" "length fs = Suc n"
    "list_all is_octet fs"
    unfolding octet_fields_def by (cases "split_dots s") auto
  from split_dots_cases [OF f(1)] f(3) obtain rest where
    "s = f @ CHR ''.'' # rest" "split_dots rest = fs" by auto
  with f show "\<exists>a t. is_octet a \<and> s = a @ CHR ''.'' # t \<and> octet_fields (Suc n) t"
    unfolding octet_fields_def by blast
next
  assume "\<exists>a t. is_octet a \<and> s = a @ CHR ''.'' # t \<and> octet_fields (Suc n) t"
  then obtain a t where a: "is_octet a" "s = a @ CHR ''.'' # t" "octet_fields (Suc n) t"
    by blast
  from a(1) have "split_dots s = a # split_dots t"
    unfolding a(2) by (simp add: split_dots_field octet_no_dot)
  with a show "octet_fields (Suc (Suc n)) s"
    by (simp add: octet_fields_def)
qed

lemma ms_Seq_lang:
  assumes "eolfree a" and "\<And>t g1. ms b (t, g1) \<noteq> [] \<longleftrightarrow> Q t"
  shows "ms (Seq a b) (s, g) \<noteq> [] \<longleftrightarrow> (\<exists>u t. u \<in> lang a \<and> s = u @ t \<and> Q t)"
proof -
  have "ms (Seq a b) (s, g) \<noteq> [] \<longleftrightarrow> (\<exists>t. (\<exists>g1. (t, g1) \<in> set (ms a (s, g))) \<and> Q t)"
    unfolding ms_Seq_nonempty assms(2) by blast
  also have "\<dots> \<longleftrightarrow> (\<exists>t. (\<exists>u \<in> lang a. s = u @ t) \<and> Q t)"
    unfolding ms_lang [OF assms(1)] ..
  finally show ?thesis by blast
qed

lemma lang_octet_dot:
  "u \<in> lang (Seq octet_rx (lit CHR ''.'')) \<longleftrightarrow> (\<exists>a. is_octet a \<and> u = a @ ''.'')"
  unfolding lang_Seq lit_def lang_Sym is_octet_lang by auto

lemma eolfree_octet: "eolfree octet_rx" "eolfree (Seq octet_rx (lit CHR ''.''))"
  by (simp_all add: octet_rx_def lit_def)

lemma ms_octet_dot:
  assumes "\<And>t g1. ms b (t, g1) \<noteq> [] \<longleftrightarrow> octet_fields (Suc n) t"
  shows "ms (Seq (Seq octet_rx (lit CHR ''.'')) b) (s, g) \<noteq> [] \<longleftrightarrow> octet_fields (Suc (Suc n)) s"
proof -
  have "ms (Seq (Seq octet_rx (lit CHR ''.'')) b) (s, g) \<noteq> []
      \<longleftrightarrow> (\<exists>u t. (\<exists>a. is_octet a \<and> u = a @ ''.'') \<and> s = u @ t \<and> octet_fields (Suc n) t)"
    unfolding ms_Seq_lang [OF eolfree_octet(2) assms] lang_octet_dot ..
  also have "\<dots> \<longleftrightarrow> (\<exists>a t. is_octet a \<and> s = a @ CHR ''.'' # t \<and> octet_fields (Suc n) t)"
    by auto
  finally show ?thesis unfolding octet_fields_more .
qed

lemma ipRegex_dotted_quad: "test_anchored ipRegex s \<longleftrightarrow> dotted_quad s"
proof -
  have q1: "ms (Seq octet_rx Eol) (t, g) \<noteq> [] \<longleftrightarrow> octet_fields (Suc 0) t" for t g
    unfolding ms_then_Eol [OF eolfree_octet(1)] octet_fields_one is_octet_lang ..
  note q2 = ms_octet_dot [OF q1]
  note q3 = ms_octet_dot [OF q2]
  note q4 = ms_octet_dot [OF q3]
  have "test_anchored ipRegex s \<longleftrightarrow> ms ipRegex (s, None) \<noteq> []"
    by (simp add: test_anchored_def match_at_def split: list.splits)
  also have "\<dots> \<longleftrightarrow> octet_fields (Suc (Suc (Suc (Suc 0)))) s"
    unfolding ipRegex_def by (rule q4)
  also have "\<dots> \<longleftrightarrow> dotted_quad s"
    by (simp add: octet_fields_def dotted_quad_def eval_nat_numeral)
  finally show ?thesis .
qed

text \<open>
  C7. The format validator accepts exactly the strings made of four dot-separated fields,
  each one to three decimal digits denoting a number from 0 to 255. For every other string
  the availability check answers "no" and leaves the world as it was: no subprocess is
  run. \<open>192.168.1.42\<close> is accepted; \<open>999.1.1.1\<close>, \<open>1.2.3\<close> and \<open>abc.def.1.1\<close>
  are rejected.
\<close>

theorem isIPAvailable_format:
  "(test_anchored ipRegex s \<longleftrightarrow> dotted_quad s)
   \<and> (\<not> dotted_quad s \<longrightarrow> isIPAvailable h (JStr s) w = (False, w))
   \<and> test_anchored ipRegex ''192.168.1.42''
   \<and> \<not> test_anchored ipRegex ''999.1.1.1''
   \<and> \<not> test_anchored ipRegex ''1.2.3''
   \<and> \<not> test_anchored ipRegex ''abc.def.1.1''"
proof (intro conjI impI)
  show "test_anchored ipRegex s \<longleftrightarrow> dotted_quad s"
    by (rule ipRegex_dotted_quad)
next
  assume "\<not> dotted_quad s"
  then have "\<not> test_anchored ipRegex s"
    by (simp add: ipRegex_dotted_quad)
  then show "isIPAvailable h (JStr s) w = (False, w)"
    by (simp add: isIPAvailable_def)
next
  show "test_anchored ipRegex ''192.168.1.42''" by code_simp
next
  show "\<not> test_anchored ipRegex ''999.1.1.1''" by code_simp
next
  show "\<not> test_anchored ipRegex ''1.2.3''" by code_simp
next
  show "\<not> test_anchored ipRegex ''abc.def.1.1''" by code_simp
qed

theorem isIPAvailable_format_witness:
  "\<not> dotted_quad ''256.1.1.1''
   \<and> \<not> test_anchored ipRegex ''256.1.1.1''
   \<and> isIPAvailable bare_host (JStr ''256.1.1.1'') empty_world = (False, empty_world)"
proof -
  have "\<not> dotted_quad ''256.1.1.1''" by code_simp
  with isIPAvailable_format [of "''256.1.1.1''" bare_host empty_world]
  show ?thesis by blast
qed

section \<open>What leaves the files alone\<close>

lemma spawnSync_files: "files (snd (spawnSync h cmd args w)) = files w"
  by (simp add: spawnSync_def Let_def)

lemma try_commands_files: "files (snd (try_commands h cs w)) = files w"
proof (induction cs arbitrary: w)
  case Nil
  show ?case by simp
next
  case (Cons c cs)
  obtain cmd args where c: "c = (cmd, args)" by (cases c)
  obtain r w1 where s: "spawnSync h cmd (case args of None \<Rightarrow> [] | Some a \<Rightarrow> a) w = (r, w1)"
    by (cases "spawnSync h cmd (case args of None \<Rightarrow> [] | Some a \<Rightarrow> a) w")
  from spawnSync_files [of h cmd "case args of None \<Rightarrow> [] | Some a \<Rightarrow> a" w] s
  have f: "files w1 = files w" by simp
  have "snd (try_commands h (c # cs) w) = w1 \<or>
        snd (try_commands h (c # cs) w) = snd (try_commands h cs w1)"
    using c s by (auto split: sum.splits option.splits)
  with f Cons.IH [of w1] show ?case by auto
qed

lemma getExternalIPCommandLine_files: "files (snd (getExternalIPCommandLine h w)) = files w"
proof (cases "getOS h = ''windows''")
  case True
  obtain r w1 where s: "spawnSync h ''ipconfig'' [] w = (r, w1)"
    by (cases "spawnSync h ''ipconfig'' [] w")
  from spawnSync_files [of h "''ipconfig''" "[]" w] s have "files w1 = files w" by simp
  moreover from True s have "snd (getExternalIPCommandLine h w) = w1"
    by (auto simp: getExternalIPCommandLine_def split: sum.splits option.splits)
  ultimately show ?thesis by simp
next
  case False
  then show ?thesis
    by (simp add: getExternalIPCommandLine_def try_commands_files)
qed

lemma getExternalIP_files: "files (snd (getExternalIP h w)) = files w"
  by (auto simp: getExternalIP_def getExternalIPCommandLine_files split: sum.splits option.splits)

lemma promptUser_files: "files (snd (promptUser q d w)) = files w"
  by (simp add: promptUser_def split: list.splits)

lemma isIPAvailable_files: "files (snd (isIPAvailable h ip w)) = files w"
proof (cases "\<exists>s. ip = JStr s \<and> s \<noteq> [] \<and> test_anchored ipRegex s")
  case True
  then obtain s where ip: "ip = JStr s" "s \<noteq> []" "test_anchored ipRegex s" by blast
  obtain r w1 where p: "spawnSync h ''ping'' (pingArgs h s) w = (r, w1)"
    by (cases "spawnSync h ''ping'' (pingArgs h s) w")
  from spawnSync_files [of h "''ping''" "pingArgs h s" w] p have "files w1 = files w" by simp
  moreover from ip p have "snd (isIPAvailable h ip w) = w1"
    by (auto simp: isIPAvailable_def split: sum.splits)
  ultimately show ?thesis by simp
next
  case False
  then have "snd (isIPAvailable h ip w) = w"
    by (cases ip) (auto simp: isIPAvailable_def)
  then show ?thesis by simp
qed

lemma revalidate_files: "files (snd (revalidate h config w)) = files w"
proof -
  obtain available w1 where a: "isIPAvailable h (get_prop config ''externalIP'') w = (available, w1)"
    by (cases "isIPAvailable h (get_prop config ''externalIP'') w")
  from isIPAvailable_files [of h "get_prop config ''externalIP''" w] a
  have f1: "files w1 = files w" by simp
  show ?thesis
  proof (cases available)
    case True
    with a f1 show ?thesis by (simp add: revalidate_def)
  next
    case False
    obtain found w2 where g: "getExternalIP h w1 = (found, w2)"
      by (cases "getExternalIP h w1")
    from getExternalIP_files [of h w1] g have f2: "files w2 = files w1" by simp
    let ?d = "case found of
                Some a \<Rightarrow> if a \<noteq> [] then JStr a else get_prop config ''externalIP''
              | None \<Rightarrow> get_prop config ''externalIP''"
    obtain ans w3 where p: "promptUser ''Please provide an available IP address'' ?d w2 = (ans, w3)"
      by (cases "promptUser ''Please provide an available IP address'' ?d w2")
    from promptUser_files [of "''Please provide an available IP address''" ?d w2] p
    have f3: "files w3 = files w2" by simp
    from False a g p have "snd (revalidate h config w) = w3"
      by (simp add: revalidate_def split: option.splits)
    with f1 f2 f3 show ?thesis by simp
  qed
qed

section \<open>The corrected address is not saved\<close>

text \<open>
  C9. Whatever the revalidation step does, the files after \<open>main\<close> are the files as the
  load and gather steps (with their save) left them: when the step replaces the address
  with the user's answer, the launch gets the new address and the configuration file
  keeps the old text.
\<close>

theorem revalidation_not_persisted:
  "files (snd (main h w)) = files (snd (load_and_gather h w))
   \<and> (load_and_gather h w = (Inr config, w1) \<longrightarrow>
        main h w = revalidate h config w1 \<and> files (snd (revalidate h config w1)) = files w1)"
proof (intro conjI impI)
  obtain r w1' where l: "load_and_gather h w = (r, w1')"
    by (cases "load_and_gather h w")
  show "files (snd (main h w)) = files (snd (load_and_gather h w))"
  proof (cases r)
    case (Inl out)
    with l show ?thesis by (simp add: main_def)
  next
    case (Inr c)
    with l revalidate_files [of h c w1'] show ?thesis by (simp add: main_def)
  qed
next
  assume "load_and_gather h w = (Inr config, w1)"
  then show "main h w = revalidate h config w1"
    by (simp add: main_def)
next
  show "files (snd (revalidate h config w1)) = files w1"
    by (rule revalidate_files)
qed

theorem revalidation_not_persisted_witness:
  "load_and_gather bare_host (stale_world [''10.0.0.9''])
     = (Inr (JObj [(''dockerSocket'', JStr ''/var/run/docker.sock''), (''externalIP'', JStr ''10.0.0.5'')]),
        stale_world [''10.0.0.9''])
   \<and> fst (main bare_host (stale_world [''10.0.0.9'']))
       = Launched (JObj [(''dockerSocket'', JStr ''/var/run/docker.sock''), (''externalIP'', JStr ''10.0.0.9'')])
   \<and> files (snd (main bare_host (stale_world [''10.0.0.9''])))
       = files (stale_world [''10.0.0.9''])
   \<and> files (stale_world [''10.0.0.9'']) ''/home/dev/.dexilion.cde.conf'' = Some (File stale_text)"
proof -
  let ?c = "JObj [(''dockerSocket'', JStr ''/var/run/docker.sock''), (''externalIP'', JStr ''10.0.0.5'')]"
  let ?w = "stale_world [''10.0.0.9'']"
  have "getConfig bare_host ?w = Inr (Some ?c)"
    by code_simp
  then have a: "load_and_gather bare_host ?w = (Inr ?c, ?w)"
    by (simp add: load_and_gather_def)
  have b: "fst (main bare_host ?w)
       = Launched (JObj [(''dockerSocket'', JStr ''/var/run/docker.sock''), (''externalIP'', JStr ''10.0.0.9'')])"
    by code_simp
  have c: "files ?w ''/home/dev/.dexilion.cde.conf'' = Some (File stale_text)"
    by (simp add: stale_world_def sample_world_def)
  from revalidation_not_persisted [of bare_host ?w ?c ?w]
  have "files (snd (main bare_host ?w)) = files (snd (load_and_gather bare_host ?w))"
    by (rule conjunct1)
  also have "\<dots> = files ?w"
    by (simp only: a snd_conv)
  finally have d: "files (snd (main bare_host ?w)) = files ?w" .
  from a b c d show ?thesis by (intro conjI)
qed


section \<open>The SSH directory the user names\<close>

lemma map_of_upd_other: "k' \<noteq> k \<Longrightarrow> map_of (upd k v kvs) k' = map_of kvs k'"
  by (induction kvs) auto

lemma get_prop_set_prop_other: "k' \<noteq> k \<Longrightarrow> get_prop (set_prop c k v) k' = get_prop c k'"
  by (cases c) (simp_all add: map_of_upd_other)

lemma gather_socket_other:
  "gather_socket h config w = (Inr c1, w1) \<Longrightarrow> k \<noteq> ''dockerSocket'' \<Longrightarrow>
     get_prop c1 k = get_prop config k"
  by (auto simp: gather_socket_def get_prop_set_prop_other
      split: if_splits prod.splits option.splits)

lemma gather_address_other:
  "gather_address h config w = (Inr c1, w1) \<Longrightarrow> k \<noteq> ''externalIP'' \<Longrightarrow>
     get_prop c1 k = get_prop config k"
  by (auto simp: gather_address_def get_prop_set_prop_other
      split: if_splits prod.splits option.splits)

lemma getSshDirectory_files: "files w' = files w \<Longrightarrow> getSshDirectory h w' = getSshDirectory h w"
proof -
  assume "files w' = files w"
  then have e: "existsSync w' = existsSync w"
    by (simp add: existsSync_def fun_eq_iff)
  show ?thesis unfolding getSshDirectory_def e ..
qed

lemma gather_ssh_discards:
  assumes "getSshDirectory h w = None" and "stdin w = answer # rest"
    and "trim answer = [] \<or> \<not> existsSync w (trim answer)"
  shows "gather_ssh h config w =
           (Inr config,
            w\<lparr>stdin := rest,
              trace := trace w @ [Prompted ''SSH Keys directory (leave empty to skip)'' (JStr [])]\<rparr>)"
  using assms by (auto simp: gather_ssh_def promptUser_def existsSync_def)

text \<open>
  C10. In the gather phase, when no SSH directory is found and the user answers the prompt
  with a non-empty path that does not exist, the answer is dropped: the step raises
  nothing and ends exactly as it does on an empty answer, and \<open>sshKeysDir\<close> keeps the
  value the loaded configuration had (none, when it had none). Unless the configuration
  path is a directory, which makes any save fail, the phase ends without an error and the
  file written holds that same value.
\<close>

theorem gather_discards_missing_ssh_path:
  assumes "gather_socket h config w = (Inr c1, w1)"
    and "gather_address h c1 w1 = (Inr c2, w2)"
    and "getSshDirectory h w2 = None"
    and "stdin w2 = answer # rest"
    and "trim answer \<noteq> []"
    and "\<not> existsSync w2 (trim answer)"
  shows "get_prop c2 ''sshKeysDir'' = get_prop config ''sshKeysDir''
       \<and> fst (gather_ssh h c2 w2) = Inr c2
       \<and> gather_ssh h c2 w2 = gather_ssh h c2 (w2\<lparr>stdin := [] # rest\<rparr>)
       \<and> (files w2 (configPath h) \<noteq> Some Dir \<longrightarrow>
            fst (gather h config w) = Inr c2
            \<and> files (snd (gather h config w)) (configPath h)
                = Some (File (JSON_stringify h
                    (JObj [(''dockerSocket'', get_prop c2 ''dockerSocket''),
                           (''sshKeysDir'', get_prop config ''sshKeysDir''),
                           (''externalIP'', get_prop c2 ''externalIP'')]))))"
proof -
  let ?w3 = "w2\<lparr>stdin := rest,
      trace := trace w2 @ [Prompted ''SSH Keys directory (leave empty to skip)'' (JStr [])]\<rparr>"
  have k: "get_prop c2 ''sshKeysDir'' = get_prop config ''sshKeysDir''"
    using gather_address_other [OF assms(2), of "''sshKeysDir''"]
      gather_socket_other [OF assms(1), of "''sshKeysDir''"] by simp
  have s: "gather_ssh h c2 w2 = (Inr c2, ?w3)"
    using gather_ssh_discards [of h w2 answer rest c2] assms(3,4,6) by simp
  have "getSshDirectory h (w2\<lparr>stdin := [] # rest\<rparr>) = None"
    using getSshDirectory_files [of "w2\<lparr>stdin := [] # rest\<rparr>" w2 h] assms(3) by simp
  then have e: "gather_ssh h c2 (w2\<lparr>stdin := [] # rest\<rparr>) = (Inr c2, ?w3)"
    using gather_ssh_discards [of h "w2\<lparr>stdin := [] # rest\<rparr>" "[]" rest c2]
    by (simp add: trim_def)
  have g: "fst (gather h config w) = Inr c2
      \<and> files (snd (gather h config w)) (configPath h)
          = Some (File (JSON_stringify h (configData c2)))"
    if d: "files w2 (configPath h) \<noteq> Some Dir"
  proof -
    have v: "saveConfig h c2 ?w3
        = (None, ?w3\<lparr>files := (files ?w3)(configPath h \<mapsto> File (JSON_stringify h (configData c2)))\<rparr>)"
      using d by (auto simp: saveConfig_def writeFileSync_def split: option.splits fsnode.splits)
    show ?thesis
      by (simp add: gather_def assms(1,2) s v)
  qed
  from k s e g show ?thesis
    by (simp add: configData_def)
qed

theorem gather_discards_missing_ssh_path_witness:
  "fst (gather_socket fresh_host (JObj []) first_run) = Inr (JObj [(''dockerSocket'', JStr ''/var/run/docker.sock'')])
   \<and> getSshDirectory fresh_host (snd (gather_address fresh_host
          (JObj [(''dockerSocket'', JStr ''/var/run/docker.sock'')])
          (snd (gather_socket fresh_host (JObj []) first_run)))) = None
   \<and> get_prop (JObj [(''dockerSocket'', JStr ''/var/run/docker.sock''), (''externalIP'', JStr ''10.0.0.5'')])
        ''sshKeysDir'' = JUndefined
   \<and> fst (gather fresh_host (JObj []) first_run)
        = Inr (JObj [(''dockerSocket'', JStr ''/var/run/docker.sock''), (''externalIP'', JStr ''10.0.0.5'')])
   \<and> files (snd (gather fresh_host (JObj []) first_run)) (configPath fresh_host)
        = Some (File (JSON_stringify fresh_host
            (JObj [(''dockerSocket'', JStr ''/var/run/docker.sock''),
                   (''sshKeysDir'', JUndefined),
                   (''externalIP'', JStr ''10.0.0.5'')])))"
proof -
  let ?c0 = "JObj []"
  let ?c1 = "JObj [(''dockerSocket'', JStr ''/var/run/docker.sock'')]"
  let ?c2 = "JObj [(''dockerSocket'', JStr ''/var/run/docker.sock''), (''externalIP'', JStr ''10.0.0.5'')]"
  let ?w1 = "snd (gather_socket fresh_host ?c0 first_run)"
  let ?w2 = "snd (gather_address fresh_host ?c1 ?w1)"
  have f1: "fst (gather_socket fresh_host ?c0 first_run) = Inr ?c1" by code_simp
  then have a1: "gather_socket fresh_host ?c0 first_run = (Inr ?c1, ?w1)"
    by (simp add: prod_eq_iff)
  have "fst (gather_address fresh_host ?c1 ?w1) = Inr ?c2" by code_simp
  then have a2: "gather_address fresh_host ?c1 ?w1 = (Inr ?c2, ?w2)"
    by (simp add: prod_eq_iff)
  have a3: "getSshDirectory fresh_host ?w2 = None" by code_simp
  have a4: "stdin ?w2 = ''/nope/.ssh'' # []" by code_simp
  have a5: "trim ''/nope/.ssh'' \<noteq> []" by code_simp
  have a6: "\<not> existsSync ?w2 (trim ''/nope/.ssh'')" by code_simp
  have a7: "files ?w2 (configPath fresh_host) \<noteq> Some Dir" by code_simp
  have u: "get_prop ?c0 ''sshKeysDir'' = JUndefined" "get_prop ?c2 ''dockerSocket'' = JStr ''/var/run/docker.sock''"
    "get_prop ?c2 ''externalIP'' = JStr ''10.0.0.5''" "get_prop ?c2 ''sshKeysDir'' = JUndefined"
    by simp_all
  from gather_discards_missing_ssh_path [OF a1 a2 a3 a4 a5 a6] a7 f1 a3 u
  show ?thesis by simp
qed


section \<open>What the code does where the specification says otherwise\<close>

lemma ipRegex_nonempty: "test_anchored ipRegex s \<Longrightarrow> s \<noteq> []"
proof
  assume "test_anchored ipRegex s" and "s = []"
  then have "test_anchored ipRegex []" by simp
  moreover have "\<not> test_anchored ipRegex []" by code_simp
  ultimately show False by simp
qed

text \<open>
  C1. The specification and the comments of \<open>isIPAvailable\<close> say that an echo probe
  exiting with status 0 means "in use, not available". The code returns
  \<open>result.status === 0\<close>: for a well-formed address the check answers "available"
  exactly when the probe exits with 0, and then the revalidation step of \<open>main\<close> asks
  nothing and launches with the address as it is.
\<close>

theorem isIPAvailable_zero_exit:
  assumes "test_anchored ipRegex s"
    and "spawn h (trace w) ''ping'' (pingArgs h s) = Inr res"
  shows "isIPAvailable h (JStr s) w
           = (status res = Some 0, w\<lparr>trace := trace w @ [Spawned ''ping'' (pingArgs h s) (Inr res)]\<rparr>)
       \<and> (get_prop config ''externalIP'' = JStr s \<and> status res = Some 0 \<longrightarrow>
            revalidate h config w
              = (Launched config, w\<lparr>trace := trace w @ [Spawned ''ping'' (pingArgs h s) (Inr res)]\<rparr>))"
proof -
  from assms(1) have "s \<noteq> []" by (rule ipRegex_nonempty)
  with assms have a: "isIPAvailable h (JStr s) w
           = (status res = Some 0, w\<lparr>trace := trace w @ [Spawned ''ping'' (pingArgs h s) (Inr res)]\<rparr>)"
    by (simp add: isIPAvailable_def spawnSync_def Let_def)
  then show ?thesis
    by (simp add: revalidate_def)
qed

theorem isIPAvailable_zero_exit_witness:
  "test_anchored ipRegex ''10.0.0.5''
   \<and> spawn answering_host (trace (stale_world [])) ''ping'' (pingArgs answering_host ''10.0.0.5'')
        = Inr (SpawnResult (Some 0) ''1 packets transmitted, 1 received'')
   \<and> fst (isIPAvailable answering_host (JStr ''10.0.0.5'') (stale_world [])) = True
   \<and> fst (main answering_host (stale_world []))
        = Launched (JObj [(''dockerSocket'', JStr ''/var/run/docker.sock''), (''externalIP'', JStr ''10.0.0.5'')])
   \<and> trace (snd (main answering_host (stale_world [])))
        = [Spawned ''ping'' [''-c'', ''1'', ''-W'', ''1'', ''10.0.0.5'']
             (Inr (SpawnResult (Some 0) ''1 packets transmitted, 1 received''))]"
proof -
  have a: "test_anchored ipRegex ''10.0.0.5''" by code_simp
  have b: "spawn answering_host (trace (stale_world [])) ''ping'' (pingArgs answering_host ''10.0.0.5'')
        = Inr (SpawnResult (Some 0) ''1 packets transmitted, 1 received'')"
    by code_simp
  have c: "fst (main answering_host (stale_world []))
        = Launched (JObj [(''dockerSocket'', JStr ''/var/run/docker.sock''), (''externalIP'', JStr ''10.0.0.5'')])"
    by code_simp
  have d: "trace (snd (main answering_host (stale_world [])))
        = [Spawned ''ping'' [''-c'', ''1'', ''-W'', ''1'', ''10.0.0.5'']
             (Inr (SpawnResult (Some 0) ''1 packets transmitted, 1 received''))]"
    by code_simp
  from isIPAvailable_zero_exit [OF a b]
  have "fst (isIPAvailable answering_host (JStr ''10.0.0.5'') (stale_world [])) = True"
    by simp
  with a b c d show ?thesis by (intro conjI)
qed

text \<open>
  C2. The specification enters the gather phase when \<open>dockerSocket\<close> or \<open>externalIP\<close>
  is missing. The condition of the code tests \<open>externalIP\<close> twice and \<open>dockerSocket\<close>
  never: a loaded configuration with an \<open>externalIP\<close> skips the phase whatever its
  \<open>dockerSocket\<close> is, nothing is discovered, asked or saved, and the launch gets the
  configuration as loaded.
\<close>

theorem load_and_gather_skips_on_address:
  assumes "getConfig h w = Inr (Some config)"
    and "truthy config"
    and "truthy (get_prop config ''externalIP'')"
  shows "load_and_gather h w = (Inr config, w)"
  using assms by (simp add: load_and_gather_def)

theorem load_and_gather_skips_on_address_witness:
  "getConfig answering_host partial_world = Inr (Some (JObj [(''externalIP'', JStr ''10.0.0.5'')]))
   \<and> truthy (JObj [(''externalIP'', JStr ''10.0.0.5'')])
   \<and> truthy (get_prop (JObj [(''externalIP'', JStr ''10.0.0.5'')]) ''externalIP'')
   \<and> get_prop (JObj [(''externalIP'', JStr ''10.0.0.5'')]) ''dockerSocket'' = JUndefined
   \<and> load_and_gather answering_host partial_world
        = (Inr (JObj [(''externalIP'', JStr ''10.0.0.5'')]), partial_world)
   \<and> fst (main answering_host partial_world) = Launched (JObj [(''externalIP'', JStr ''10.0.0.5'')])
   \<and> trace (snd (main answering_host partial_world))
        = [Spawned ''ping'' [''-c'', ''1'', ''-W'', ''1'', ''10.0.0.5'']
             (Inr (SpawnResult (Some 0) ''1 packets transmitted, 1 received''))]"
proof -
  let ?c = "JObj [(''externalIP'', JStr ''10.0.0.5'')]"
  have a: "getConfig answering_host partial_world = Inr (Some ?c)" by code_simp
  have b: "truthy ?c" "truthy (get_prop ?c ''externalIP'')" "get_prop ?c ''dockerSocket'' = JUndefined"
    by simp_all
  have c: "fst (main answering_host partial_world) = Launched ?c" by code_simp
  have d: "trace (snd (main answering_host partial_world))
        = [Spawned ''ping'' [''-c'', ''1'', ''-W'', ''1'', ''10.0.0.5'']
             (Inr (SpawnResult (Some 0) ''1 packets transmitted, 1 received''))]"
    by code_simp
  from load_and_gather_skips_on_address [OF a b(1) b(2)] a b c d
  show ?thesis by (intro conjI)
qed

text \<open>
  C5. The specification gives every strategy of the command-line fallback the same
  exclusion rules. The \<open>hostname -I\<close> and the \<open>ifconfig\<close>/\<open>route\<close> branches test the
  address against \<open>127.\<close> and \<open>169.254.\<close>; the \<open>ip route get\<close> branch returns the
  address after \<open>src\<close> as it is, also a loopback or link-local one.
\<close>

theorem parse_output_ip_unfiltered:
  assumes "exec_from src_rx output = Some (rest, Some ip)"
  shows "parse_output ''ip'' args output = Inr (Some ip)"
  using assms by (simp add: parse_output_def)

theorem parse_output_ip_unfiltered_witness:
  "exec_from src_rx route_text = Some ('' uid 1000'', Some ''169.254.7.9'')
   \<and> parse_output ''ip'' (Some [''route'', ''get'', ''1.1.1.1'']) route_text = Inr (Some ''169.254.7.9'')
   \<and> \<not> not_excluded ''169.254.7.9''
   \<and> parse_output ''hostname'' (Some [''-I'']) ''169.254.7.9 '' = Inr None
   \<and> fst (getExternalIPCommandLine link_local_host empty_world) = Some ''169.254.7.9''"
proof -
  have a: "exec_from src_rx route_text = Some ('' uid 1000'', Some ''169.254.7.9'')" by code_simp
  have b: "\<not> not_excluded ''169.254.7.9''" by code_simp
  have c: "parse_output ''hostname'' (Some [''-I'']) ''169.254.7.9 '' = Inr None" by code_simp
  have d: "fst (getExternalIPCommandLine link_local_host empty_world) = Some ''169.254.7.9''"
    by code_simp
  from parse_output_ip_unfiltered [OF a, of "Some [''route'', ''get'', ''1.1.1.1'']"] a b c d
  show ?thesis by (intro conjI)
qed


end
